theory Spec2Isabelle
  imports Main "HOL-Library.Code_Target_Nat"
begin

section \<open>Memory, element types and outcomes\<close>

text \<open>
  The container of \<^verbatim>\<open>vector.h\<close> manages raw storage by hand, so the embedding keeps an
  explicit memory. A block is a list of slots; a slot is either uninitialised storage
  (\<open>Raw\<close>) or holds a constructed object (\<open>Obj x\<close>). A pointer is a block number and an
  offset counted in elements; block number \<open>0\<close> is never allocated, and \<open>Ptr 0 0\<close> is
  \<^verbatim>\<open>nullptr\<close>. Offsets are integers, because the source forms pointers below the start
  of a buffer.

  Every way an operation can stop is a value: a failed \<^verbatim>\<open>assert\<close>, an access that the
  C++ abstract machine leaves undefined (a slot outside a live block, reading or
  destroying raw storage), and \<^verbatim>\<open>std::bad_alloc\<close>. Assertions are taken as enabled.
\<close>

datatype error = AssertionFailed | UndefinedBehaviour | BadAlloc

datatype 'a slot = Raw | Obj 'a

datatype ptr = Ptr (base: nat) (off: int)

text \<open>
  The calls of the element type's special members are recorded, destination first:
  \<open>Ctor p\<close> is a construction from arguments (or a value-initialisation) at \<open>p\<close>,
  \<open>CopyCtor p q\<close> is \<^verbatim>\<open>new (p) T(*q)\<close>, \<open>MoveCtor p q\<close> is \<^verbatim>\<open>new (p) T(std::move(*q))\<close>,
  \<open>CopyAssign p q\<close> is \<^verbatim>\<open>*p = *q\<close>, \<open>MoveAssign p q\<close> is \<^verbatim>\<open>*p = std::move(*q)\<close> and
  \<open>Dtor p\<close> is the destructor call at \<open>p\<close>.
\<close>

datatype event =
    Ctor ptr
  | CopyCtor ptr ptr
  | MoveCtor ptr ptr
  | CopyAssign ptr ptr
  | MoveAssign ptr ptr
  | Dtor ptr

record 'a mem =
  blocks :: "'a slot list option list"
  alloc_limit :: nat
  log :: "event list"

text \<open>
  What the template needs to know of its parameter \<^verbatim>\<open>T\<close>: \<^verbatim>\<open>sizeof(T)\<close>, the two traits
  read by \<^verbatim>\<open>MoveElements\<close>, the state a move leaves in its source, and the value of
  \<^verbatim>\<open>T()\<close>. A copy yields an equal value and a move yields the source's value; the
  element type's own operations do not throw in this model.
\<close>

record 'a elem_type =
  sizeof :: nat
  is_nothrow_move_constructible :: bool
  is_copy_constructible :: bool
  moved_from :: "'a \<Rightarrow> 'a"
  value_initialized :: 'a

type_synonym ('r, 'a) M = "'a mem \<Rightarrow> error + ('r \<times> 'a mem)"

definition returnM :: "'r \<Rightarrow> ('r, 'a) M" where
  "returnM r m = Inr (r, m)"

definition failM :: "error \<Rightarrow> ('r, 'a) M" where
  "failM e m = Inl e"

definition bindM :: "('r, 'a) M \<Rightarrow> ('r \<Rightarrow> ('q, 'a) M) \<Rightarrow> ('q, 'a) M" where
  "bindM f g m = (case f m of Inl e \<Rightarrow> Inl e | Inr (r, m') \<Rightarrow> g r m')"

definition assertM :: "bool \<Rightarrow> (unit, 'a) M" where
  "assertM c = (if c then returnM () else failM AssertionFailed)"

subsection \<open>Pointers and \<^verbatim>\<open>size_t\<close>\<close>

definition nullptr :: ptr where
  "nullptr = Ptr 0 0"

definition ptr_add :: "ptr \<Rightarrow> int \<Rightarrow> ptr" where
  "ptr_add p k = Ptr (base p) (off p + k)"

text \<open>\<^verbatim>\<open>p - q\<close> on pointers is defined only inside one array.\<close>

definition ptr_diff :: "ptr \<Rightarrow> ptr \<Rightarrow> (int, 'a) M" where
  "ptr_diff p q = (if base p = base q then returnM (off p - off q) else failM UndefinedBehaviour)"

text \<open>
  \<^verbatim>\<open>size_t\<close> is taken as 64 bits wide. Sizes are naturals; the three computations of the
  source that are not guarded against wrapping are written with the wrap-around:
  the conversion of a pointer difference, an unguarded subtraction and a product.
\<close>

definition size_t_of_int :: "int \<Rightarrow> nat" where
  "size_t_of_int i = nat (i mod 2 ^ 64)"

definition size_t_sub :: "nat \<Rightarrow> nat \<Rightarrow> nat" where
  "size_t_sub a b = (if b \<le> a then a - b else a + 2 ^ 64 - b)"

definition size_t_mul :: "nat \<Rightarrow> nat \<Rightarrow> nat" where
  "size_t_mul a b = (a * b) mod 2 ^ 64"

subsection \<open>Slots\<close>

definition block_at :: "'a mem \<Rightarrow> nat \<Rightarrow> 'a slot list option" where
  "block_at m b = (if b = 0 \<or> length (blocks m) < b then None else blocks m ! (b - 1))"

definition set_block :: "nat \<Rightarrow> 'a slot list option \<Rightarrow> 'a mem \<Rightarrow> 'a mem" where
  "set_block b blk m = m\<lparr>blocks := (blocks m)[b - 1 := blk]\<rparr>"

definition slot_at :: "'a mem \<Rightarrow> ptr \<Rightarrow> 'a slot option" where
  "slot_at m p =
     (case block_at m (base p) of
        None \<Rightarrow> None
      | Some blk \<Rightarrow> if 0 \<le> off p \<and> off p < int (length blk) then Some (blk ! nat (off p)) else None)"

definition put_slot :: "ptr \<Rightarrow> 'a slot \<Rightarrow> 'a mem \<Rightarrow> 'a mem" where
  "put_slot p v m =
     (case block_at m (base p) of
        None \<Rightarrow> m
      | Some blk \<Rightarrow> set_block (base p) (Some (blk[nat (off p) := v])) m)"

definition record_event :: "event \<Rightarrow> 'a mem \<Rightarrow> 'a mem" where
  "record_event e m = m\<lparr>log := log m @ [e]\<rparr>"

subsection \<open>The element type's operations on storage\<close>

text \<open>\<^verbatim>\<open>new (p) T(args...)\<close>, with \<open>x\<close> the value the arguments construct.\<close>

definition construct_at :: "ptr \<Rightarrow> 'a \<Rightarrow> (unit, 'a) M" where
  "construct_at p x m =
     (case slot_at m p of
        None \<Rightarrow> Inl UndefinedBehaviour
      | Some _ \<Rightarrow> Inr ((), record_event (Ctor p) (put_slot p (Obj x) m)))"

definition copy_construct :: "ptr \<Rightarrow> ptr \<Rightarrow> (unit, 'a) M" where
  "copy_construct p q m =
     (case (slot_at m p, slot_at m q) of
        (Some _, Some (Obj x)) \<Rightarrow> Inr ((), record_event (CopyCtor p q) (put_slot p (Obj x) m))
      | _ \<Rightarrow> Inl UndefinedBehaviour)"

definition move_construct :: "'a elem_type \<Rightarrow> ptr \<Rightarrow> ptr \<Rightarrow> (unit, 'a) M" where
  "move_construct T p q m =
     (case (slot_at m p, slot_at m q) of
        (Some _, Some (Obj x)) \<Rightarrow>
          Inr ((), record_event (MoveCtor p q) (put_slot p (Obj x) (put_slot q (Obj (moved_from T x)) m)))
      | _ \<Rightarrow> Inl UndefinedBehaviour)"

definition copy_assign :: "ptr \<Rightarrow> ptr \<Rightarrow> (unit, 'a) M" where
  "copy_assign p q m =
     (case (slot_at m p, slot_at m q) of
        (Some (Obj _), Some (Obj x)) \<Rightarrow> Inr ((), record_event (CopyAssign p q) (put_slot p (Obj x) m))
      | _ \<Rightarrow> Inl UndefinedBehaviour)"

definition move_assign :: "'a elem_type \<Rightarrow> ptr \<Rightarrow> ptr \<Rightarrow> (unit, 'a) M" where
  "move_assign T p q m =
     (case (slot_at m p, slot_at m q) of
        (Some (Obj _), Some (Obj x)) \<Rightarrow>
          Inr ((), record_event (MoveAssign p q) (put_slot p (Obj x) (put_slot q (Obj (moved_from T x)) m)))
      | _ \<Rightarrow> Inl UndefinedBehaviour)"

definition destroy_at :: "ptr \<Rightarrow> (unit, 'a) M" where
  "destroy_at p m =
     (case slot_at m p of
        Some (Obj _) \<Rightarrow> Inr ((), record_event (Dtor p) (put_slot p Raw m))
      | _ \<Rightarrow> Inl UndefinedBehaviour)"

subsection \<open>The standard algorithms the source calls\<close>

text \<open>
  Each is the loop of the C++ standard's description, by recursion on the number of
  elements left. A range \<open>[first, last)\<close> whose \<open>last\<close> is not reachable from \<open>first\<close> is
  undefined behaviour.
\<close>

fun uninitialized_value_construct_n :: "'a elem_type \<Rightarrow> ptr \<Rightarrow> nat \<Rightarrow> (unit, 'a) M" where
  "uninitialized_value_construct_n T first 0 = returnM ()"
| "uninitialized_value_construct_n T first (Suc n) =
     bindM (construct_at first (value_initialized T))
       (\<lambda>_. uninitialized_value_construct_n T (ptr_add first 1) n)"

fun uninitialized_copy_n :: "ptr \<Rightarrow> nat \<Rightarrow> ptr \<Rightarrow> (unit, 'a) M" where
  "uninitialized_copy_n first 0 d_first = returnM ()"
| "uninitialized_copy_n first (Suc n) d_first =
     bindM (copy_construct d_first first)
       (\<lambda>_. uninitialized_copy_n (ptr_add first 1) n (ptr_add d_first 1))"

fun uninitialized_move_n :: "'a elem_type \<Rightarrow> ptr \<Rightarrow> nat \<Rightarrow> ptr \<Rightarrow> (unit, 'a) M" where
  "uninitialized_move_n T first 0 d_first = returnM ()"
| "uninitialized_move_n T first (Suc n) d_first =
     bindM (move_construct T d_first first)
       (\<lambda>_. uninitialized_move_n T (ptr_add first 1) n (ptr_add d_first 1))"

fun destroy_n :: "ptr \<Rightarrow> nat \<Rightarrow> (unit, 'a) M" where
  "destroy_n first 0 = returnM ()"
| "destroy_n first (Suc n) = bindM (destroy_at first) (\<lambda>_. destroy_n (ptr_add first 1) n)"

fun copy_loop :: "ptr \<Rightarrow> nat \<Rightarrow> ptr \<Rightarrow> (unit, 'a) M" where
  "copy_loop first 0 d_first = returnM ()"
| "copy_loop first (Suc n) d_first =
     bindM (copy_assign d_first first) (\<lambda>_. copy_loop (ptr_add first 1) n (ptr_add d_first 1))"

definition std_copy :: "ptr \<Rightarrow> ptr \<Rightarrow> ptr \<Rightarrow> (unit, 'a) M" where
  "std_copy first last' d_first =
     (if base first = base last' \<and> off first \<le> off last'
      then copy_loop first (nat (off last' - off first)) d_first
      else failM UndefinedBehaviour)"

fun move_loop :: "'a elem_type \<Rightarrow> ptr \<Rightarrow> nat \<Rightarrow> ptr \<Rightarrow> (unit, 'a) M" where
  "move_loop T first 0 d_first = returnM ()"
| "move_loop T first (Suc n) d_first =
     bindM (move_assign T d_first first) (\<lambda>_. move_loop T (ptr_add first 1) n (ptr_add d_first 1))"

definition std_move :: "'a elem_type \<Rightarrow> ptr \<Rightarrow> ptr \<Rightarrow> ptr \<Rightarrow> (unit, 'a) M" where
  "std_move T first last' d_first =
     (if base first = base last' \<and> off first \<le> off last'
      then move_loop T first (nat (off last' - off first)) d_first
      else failM UndefinedBehaviour)"

text \<open>\<^verbatim>\<open>while (first != last) *(--d_last) = std::move(*(--last));\<close>\<close>

fun move_backward_loop :: "'a elem_type \<Rightarrow> nat \<Rightarrow> ptr \<Rightarrow> ptr \<Rightarrow> (unit, 'a) M" where
  "move_backward_loop T 0 last' d_last = returnM ()"
| "move_backward_loop T (Suc n) last' d_last =
     bindM (move_assign T (ptr_add d_last (- 1)) (ptr_add last' (- 1)))
       (\<lambda>_. move_backward_loop T n (ptr_add last' (- 1)) (ptr_add d_last (- 1)))"

definition std_move_backward :: "'a elem_type \<Rightarrow> ptr \<Rightarrow> ptr \<Rightarrow> ptr \<Rightarrow> (unit, 'a) M" where
  "std_move_backward T first last' d_last =
     (if base first = base last' \<and> off first \<le> off last'
      then move_backward_loop T (nat (off last' - off first)) last' d_last
      else failM UndefinedBehaviour)"

text \<open>
  \<^verbatim>\<open>operator new(bytes)\<close> throws when the request exceeds what the platform grants
  (\<open>alloc_limit\<close>, in bytes) and otherwise returns a fresh block, which has room for
  \<open>bytes div sizeof(T)\<close> elements. \<^verbatim>\<open>operator delete\<close> of a null pointer does nothing.
\<close>

definition operator_new :: "'a elem_type \<Rightarrow> nat \<Rightarrow> (ptr, 'a) M" where
  "operator_new T bytes m =
     (if alloc_limit m < bytes then Inl BadAlloc
      else Inr (Ptr (Suc (length (blocks m))) 0,
                m\<lparr>blocks := blocks m @ [Some (replicate (bytes div sizeof T) Raw)]\<rparr>))"

definition operator_delete :: "ptr \<Rightarrow> (unit, 'a) M" where
  "operator_delete buf m =
     (if buf = nullptr then Inr ((), m)
      else if off buf = 0 \<and> block_at m (base buf) \<noteq> None then Inr ((), set_block (base buf) None m)
      else Inl UndefinedBehaviour)"

section \<open>RawMemory\<close>

text \<open>
  \<^verbatim>\<open>RawMemory<T>\<close> owns one block and knows its capacity. Its copy operations are
  deleted. The operations that take a second \<^verbatim>\<open>RawMemory\<close> return both objects, first
  \<^verbatim>\<open>*this\<close>; they are used on distinct objects only (a member and a local, or a member
  and a temporary).
\<close>

record RawMemory =
  buffer_' :: ptr
  capacity_' :: nat

definition Allocate :: "'a elem_type \<Rightarrow> nat \<Rightarrow> (ptr, 'a) M" where
  "Allocate T n = (if n \<noteq> 0 then operator_new T (size_t_mul n (sizeof T)) else returnM nullptr)"

definition Deallocate :: "ptr \<Rightarrow> (unit, 'a) M" where
  "Deallocate buf = operator_delete buf"

definition RawMemory_default :: RawMemory where
  "RawMemory_default = \<lparr>buffer_' = nullptr, capacity_' = 0\<rparr>"

definition RawMemory_ctor :: "'a elem_type \<Rightarrow> nat \<Rightarrow> (RawMemory, 'a) M" where
  "RawMemory_ctor T capacity =
     bindM (Allocate T capacity) (\<lambda>buf. returnM \<lparr>buffer_' = buf, capacity_' = capacity\<rparr>)"

definition RawMemory_move_ctor :: "RawMemory \<Rightarrow> RawMemory \<times> RawMemory" where
  "RawMemory_move_ctor other =
     (\<lparr>buffer_' = buffer_' other, capacity_' = capacity_' other\<rparr>,
      other\<lparr>buffer_' := nullptr, capacity_' := 0\<rparr>)"

definition RawMemory_move_assign :: "RawMemory \<Rightarrow> RawMemory \<Rightarrow> RawMemory \<times> RawMemory" where
  "RawMemory_move_assign this rhs =
     (this\<lparr>buffer_' := buffer_' rhs, capacity_' := capacity_' rhs\<rparr>,
      rhs\<lparr>buffer_' := nullptr, capacity_' := 0\<rparr>)"

definition RawMemory_dtor :: "RawMemory \<Rightarrow> (unit, 'a) M" where
  "RawMemory_dtor this = Deallocate (buffer_' this)"

definition RawMemory_plus :: "RawMemory \<Rightarrow> nat \<Rightarrow> (ptr, 'a) M" where
  "RawMemory_plus this offset =
     bindM (assertM (offset \<le> capacity_' this)) (\<lambda>_. returnM (ptr_add (buffer_' this) (int offset)))"

definition RawMemory_index :: "RawMemory \<Rightarrow> nat \<Rightarrow> (ptr, 'a) M" where
  "RawMemory_index this index =
     bindM (assertM (index < capacity_' this)) (\<lambda>_. returnM (ptr_add (buffer_' this) (int index)))"

definition RawMemory_Swap :: "RawMemory \<Rightarrow> RawMemory \<Rightarrow> RawMemory \<times> RawMemory" where
  "RawMemory_Swap this other =
     (this\<lparr>buffer_' := buffer_' other, capacity_' := capacity_' other\<rparr>,
      other\<lparr>buffer_' := buffer_' this, capacity_' := capacity_' this\<rparr>)"

definition GetAddress :: "RawMemory \<Rightarrow> ptr" where
  "GetAddress this = buffer_' this"

definition RawMemory_Capacity :: "RawMemory \<Rightarrow> nat" where
  "RawMemory_Capacity this = capacity_' this"

section \<open>Vector\<close>

text \<open>
  A \<^verbatim>\<open>Vector<T>\<close> is its two members. A method returns the updated object next to its
  result. An iterator is a pointer. The two assignment operators and \<^verbatim>\<open>Swap\<close> take a
  second \<^verbatim>\<open>Vector\<close> by reference, which may be the object itself: they work on a list of
  objects and the two positions in it.
\<close>

record Vector =
  data_' :: RawMemory
  size_' :: nat

definition Vector_default :: "'a elem_type \<Rightarrow> (Vector, 'a) M" where
  "Vector_default T = bindM (RawMemory_ctor T 0) (\<lambda>d. returnM \<lparr>data_' = d, size_' = 0\<rparr>)"

definition Vector_size_ctor :: "'a elem_type \<Rightarrow> nat \<Rightarrow> (Vector, 'a) M" where
  "Vector_size_ctor T size' =
     bindM (RawMemory_ctor T size') (\<lambda>d.
     bindM (uninitialized_value_construct_n T (GetAddress d) size') (\<lambda>_.
     returnM \<lparr>data_' = d, size_' = size'\<rparr>))"

definition Size :: "Vector \<Rightarrow> nat" where
  "Size this = size_' this"

definition Capacity :: "Vector \<Rightarrow> nat" where
  "Capacity this = RawMemory_Capacity (data_' this)"

definition Vector_begin :: "Vector \<Rightarrow> ptr" where
  "Vector_begin this = GetAddress (data_' this)"

definition Vector_end :: "Vector \<Rightarrow> ptr" where
  "Vector_end this = ptr_add (GetAddress (data_' this)) (int (size_' this))"

definition Vector_copy_ctor :: "'a elem_type \<Rightarrow> Vector \<Rightarrow> (Vector, 'a) M" where
  "Vector_copy_ctor T other =
     bindM (RawMemory_ctor T (size_' other)) (\<lambda>d.
     bindM (uninitialized_copy_n (GetAddress (data_' other)) (Size other) (GetAddress d)) (\<lambda>_.
     returnM \<lparr>data_' = d, size_' = size_' other\<rparr>))"

text \<open>The result is the new object and \<open>other\<close> as the constructor leaves it.\<close>

definition Vector_move_ctor :: "Vector \<Rightarrow> Vector \<times> Vector" where
  "Vector_move_ctor other =
     (let this = \<lparr>data_' = RawMemory_default, size_' = size_' other\<rparr>;
          (d, od) = RawMemory_move_assign (data_' this) (data_' other)
      in (this\<lparr>data_' := d\<rparr>, other\<lparr>data_' := od\<rparr>))"

definition Vector_dtor :: "Vector \<Rightarrow> (unit, 'a) M" where
  "Vector_dtor this =
     bindM (if GetAddress (data_' this) \<noteq> nullptr
            then destroy_n (GetAddress (data_' this)) (size_' this)
            else returnM ())
       (\<lambda>_. RawMemory_dtor (data_' this))"

text \<open>\<^verbatim>\<open>operator[]\<close> returns a reference, here the pointer to the element.\<close>

definition Vector_index :: "Vector \<Rightarrow> nat \<Rightarrow> (ptr, 'a) M" where
  "Vector_index this index =
     bindM (assertM (index < size_' this)) (\<lambda>_. RawMemory_index (data_' this) index)"

text \<open>
  \<^verbatim>\<open>Swap\<close> exchanges the members through \<^verbatim>\<open>std::swap\<close>; exchanging an object with itself
  leaves it as it is.
\<close>

definition Vector_Swap :: "Vector list \<Rightarrow> nat \<Rightarrow> nat \<Rightarrow> Vector list" where
  "Vector_Swap objs this other =
     (if this = other then objs
      else
        let (d, od) = RawMemory_Swap (data_' (objs ! this)) (data_' (objs ! other));
            s = size_' (objs ! this);
            os = size_' (objs ! other)
        in objs[this := \<lparr>data_' = d, size_' = os\<rparr>, other := \<lparr>data_' = od, size_' = s\<rparr>])"

text \<open>
  In the first branch the local \<^verbatim>\<open>rhs_copy\<close> is a further object, put after the others
  for as long as it lives.
\<close>

definition Vector_copy_assign :: "'a elem_type \<Rightarrow> Vector list \<Rightarrow> nat \<Rightarrow> nat \<Rightarrow> (Vector list, 'a) M" where
  "Vector_copy_assign T objs this rhs =
     (if this \<noteq> rhs then
        (if size_' (objs ! rhs) > RawMemory_Capacity (data_' (objs ! this)) then
           bindM (Vector_copy_ctor T (objs ! rhs)) (\<lambda>rhs_copy.
           let c = length objs;
               objs1 = Vector_Swap (objs @ [rhs_copy]) this c
           in bindM (Vector_dtor (objs1 ! c)) (\<lambda>_. returnM (butlast objs1)))
         else
           let t = objs ! this; r = objs ! rhs in
           bindM (std_copy (GetAddress (data_' r))
                    (ptr_add (GetAddress (data_' r)) (int (min (Size t) (Size r))))
                    (GetAddress (data_' t))) (\<lambda>_.
           bindM (if Size r > Size t
                  then uninitialized_copy_n (ptr_add (GetAddress (data_' r)) (int (Size t)))
                         (Size r - Size t) (ptr_add (GetAddress (data_' t)) (int (Size t)))
                  else destroy_n (ptr_add (GetAddress (data_' t)) (int (Size r))) (Size t - Size r)) (\<lambda>_.
           returnM (objs[this := t\<lparr>size_' := Size r\<rparr>]))))
      else returnM objs)"

text \<open>
  \<^verbatim>\<open>std::exchange(rhs.data_, {})\<close>: move-construct the old value out of the member,
  move-assign the new value into it, return the old value. The result is the returned
  temporary, the argument temporary as it is left, and the objects.
\<close>

definition std_exchange_data :: "Vector list \<Rightarrow> nat \<Rightarrow> RawMemory \<Rightarrow> RawMemory \<times> RawMemory \<times> Vector list" where
  "std_exchange_data objs rhs new_value =
     (let (old_value, d1) = RawMemory_move_ctor (data_' (objs ! rhs));
          objs1 = objs[rhs := (objs ! rhs)\<lparr>data_' := d1\<rparr>];
          (d2, new_value1) = RawMemory_move_assign (data_' (objs1 ! rhs)) new_value;
          objs2 = objs1[rhs := (objs1 ! rhs)\<lparr>data_' := d2\<rparr>]
      in (old_value, new_value1, objs2))"

definition Vector_move_assign :: "Vector list \<Rightarrow> nat \<Rightarrow> nat \<Rightarrow> (Vector list, 'a) M" where
  "Vector_move_assign objs this rhs =
     (let (tmp, arg, objs1) = std_exchange_data objs rhs RawMemory_default;
          (d, tmp1) = RawMemory_move_assign (data_' (objs1 ! this)) tmp;
          objs2 = objs1[this := (objs1 ! this)\<lparr>data_' := d\<rparr>]
      in bindM (RawMemory_dtor tmp1) (\<lambda>_.
         bindM (RawMemory_dtor arg) (\<lambda>_.
         returnM (objs2[this := (objs2 ! this)\<lparr>size_' := size_' (objs2 ! rhs)\<rparr>]))))"

definition MoveElements :: "'a elem_type \<Rightarrow> ptr \<Rightarrow> nat \<Rightarrow> ptr \<Rightarrow> (unit, 'a) M" where
  "MoveElements T data_from_ptr elements_cnt new_data_to_ptr =
     bindM (if is_nothrow_move_constructible T \<or> \<not> is_copy_constructible T
            then uninitialized_move_n T data_from_ptr elements_cnt new_data_to_ptr
            else uninitialized_copy_n data_from_ptr elements_cnt new_data_to_ptr)
       (\<lambda>_. destroy_n data_from_ptr elements_cnt)"

definition Reserve :: "'a elem_type \<Rightarrow> nat \<Rightarrow> Vector \<Rightarrow> (Vector, 'a) M" where
  "Reserve T new_capacity this =
     (if new_capacity \<le> RawMemory_Capacity (data_' this) then returnM this
      else
        bindM (RawMemory_ctor T new_capacity) (\<lambda>new_data.
        bindM (MoveElements T (GetAddress (data_' this)) (size_' this) (GetAddress new_data)) (\<lambda>_.
        let (d, nd) = RawMemory_Swap (data_' this) new_data in
        bindM (RawMemory_dtor nd) (\<lambda>_. returnM (this\<lparr>data_' := d\<rparr>)))))"

definition Resize :: "'a elem_type \<Rightarrow> nat \<Rightarrow> Vector \<Rightarrow> (Vector, 'a) M" where
  "Resize T new_size this =
     bindM (if new_size < size_' this then
              bindM (destroy_n (ptr_add (GetAddress (data_' this)) (int new_size)) (size_' this - new_size))
                (\<lambda>_. returnM this)
            else if new_size > size_' this then
              bindM (Reserve T new_size this) (\<lambda>this1.
              bindM (uninitialized_value_construct_n T
                       (ptr_add (GetAddress (data_' this1)) (int (size_' this1))) (new_size - size_' this1))
                (\<lambda>_. returnM this1))
            else returnM this)
       (\<lambda>this2. returnM (this2\<lparr>size_' := new_size\<rparr>))"

definition PopBack :: "Vector \<Rightarrow> (Vector, 'a) M" where
  "PopBack this =
     bindM (destroy_at (ptr_add (ptr_add (GetAddress (data_' this)) (int (size_' this))) (- 1)))
       (\<lambda>_. returnM (this\<lparr>size_' := size_t_sub (size_' this) 1\<rparr>))"

definition EmplaceWithReallocation :: "'a elem_type \<Rightarrow> Vector \<Rightarrow> ptr \<Rightarrow> 'a \<Rightarrow> (ptr \<times> Vector, 'a) M" where
  "EmplaceWithReallocation T this pos x =
     bindM (ptr_diff pos (Vector_begin this)) (\<lambda>d.
     let current_pos = size_t_of_int d in
     bindM (RawMemory_ctor T (if size_' this = 0 then 1 else size_t_mul (size_' this) 2)) (\<lambda>new_data.
     bindM (RawMemory_plus new_data current_pos) (\<lambda>new_elem.
     bindM (construct_at new_elem x) (\<lambda>_.
     bindM (if size_' this > 0 then
              bindM (MoveElements T (GetAddress (data_' this)) current_pos (GetAddress new_data)) (\<lambda>_.
              MoveElements T (ptr_add (GetAddress (data_' this)) (int current_pos))
                (size_t_sub (size_' this) current_pos)
                (ptr_add (ptr_add (GetAddress new_data) (int current_pos)) 1))
            else returnM ()) (\<lambda>_.
     let (d1, nd) = RawMemory_Swap (data_' this) new_data in
     bindM (RawMemory_dtor nd) (\<lambda>_.
     returnM (new_elem, this\<lparr>data_' := d1, size_' := size_' this + 1\<rparr>)))))))"

definition EmplaceWithoutReallocation :: "'a elem_type \<Rightarrow> Vector \<Rightarrow> ptr \<Rightarrow> 'a \<Rightarrow> (ptr \<times> Vector, 'a) M" where
  "EmplaceWithoutReallocation T this pos x =
     bindM (ptr_diff pos (Vector_begin this)) (\<lambda>d.
     let current_pos = size_t_of_int d in
     bindM (if size_' this > 0 then
              (if current_pos \<noteq> size_' this then
                 bindM (RawMemory_plus (data_' this) (size_' this)) (\<lambda>p.
                 bindM (RawMemory_index (data_' this) (size_' this - 1)) (\<lambda>q.
                 bindM (move_construct T p q) (\<lambda>_.
                 bindM (std_move_backward T
                          (ptr_add (ptr_add (Vector_begin this) (int current_pos)) (- 1))
                          (ptr_add (Vector_end this) (- 1))
                          (Vector_end this)) (\<lambda>_.
                 bindM (RawMemory_plus (data_' this) current_pos) (\<lambda>r. destroy_at r)))))
               else returnM ())
            else returnM ()) (\<lambda>_.
     bindM (RawMemory_plus (data_' this) current_pos) (\<lambda>new_elem.
     bindM (construct_at new_elem x) (\<lambda>_.
     returnM (new_elem, this\<lparr>size_' := size_' this + 1\<rparr>)))))"

definition Emplace :: "'a elem_type \<Rightarrow> Vector \<Rightarrow> ptr \<Rightarrow> 'a \<Rightarrow> (ptr \<times> Vector, 'a) M" where
  "Emplace T this pos x =
     (if size_' this = RawMemory_Capacity (data_' this)
      then EmplaceWithReallocation T this pos x
      else EmplaceWithoutReallocation T this pos x)"

definition EmplaceBack :: "'a elem_type \<Rightarrow> Vector \<Rightarrow> 'a \<Rightarrow> (ptr \<times> Vector, 'a) M" where
  "EmplaceBack T this x = Emplace T this (Vector_end this) x"

definition PushBack :: "'a elem_type \<Rightarrow> Vector \<Rightarrow> 'a \<Rightarrow> (Vector, 'a) M" where
  "PushBack T this val = bindM (EmplaceBack T this val) (\<lambda>(r, this1). returnM this1)"

definition Insert :: "'a elem_type \<Rightarrow> Vector \<Rightarrow> ptr \<Rightarrow> 'a \<Rightarrow> (ptr \<times> Vector, 'a) M" where
  "Insert T this pos val = Emplace T this pos val"

definition Erase :: "'a elem_type \<Rightarrow> Vector \<Rightarrow> ptr \<Rightarrow> (ptr \<times> Vector, 'a) M" where
  "Erase T this pos =
     bindM (ptr_diff pos (Vector_begin this)) (\<lambda>d.
     let current_pos = ptr_add (Vector_begin this) d in
     bindM (std_move T (ptr_add current_pos 1) (Vector_end this) current_pos) (\<lambda>_.
     bindM (PopBack this) (\<lambda>this1.
     returnM (current_pos, this1))))"

section \<open>Reading a Vector\<close>

text \<open>
  \<open>contents m v\<close> is what the slots \<open>[begin, end)\<close> of \<open>v\<close> hold in \<open>m\<close>, slot by slot
  (\<open>None\<close> where there is no slot). \<open>vec_rep m v xs\<close> is the state invariant of the
  container: \<open>v\<close> holds exactly the elements \<open>xs\<close>, within its capacity, in a live block
  of its capacity whose remaining slots are raw; with capacity \<open>0\<close> the buffer is null.
\<close>

definition contents :: "'a mem \<Rightarrow> Vector \<Rightarrow> 'a slot option list" where
  "contents m v = map (\<lambda>i. slot_at m (ptr_add (Vector_begin v) (int i))) [0..<Size v]"

definition vec_rep :: "'a mem \<Rightarrow> Vector \<Rightarrow> 'a list \<Rightarrow> bool" where
  "vec_rep m v xs \<longleftrightarrow>
     size_' v = length xs \<and> length xs \<le> capacity_' (data_' v) \<and>
     (if capacity_' (data_' v) = 0 then buffer_' (data_' v) = nullptr
      else off (buffer_' (data_' v)) = 0 \<and>
           block_at m (base (buffer_' (data_' v))) =
             Some (map Obj xs @ replicate (capacity_' (data_' v) - length xs) Raw))"

section \<open>Describing memory after an operation\<close>

text \<open>
  The functions of this section are not part of the container: they say what a memory
  looks like after an operation. \<open>add_log es m\<close> is \<open>m\<close> with the events \<open>es\<close> recorded
  after those it has, \<open>new_block n m\<close> is \<open>m\<close> with a fresh raw block of \<open>n\<close> slots, and
  \<open>ptr_range p n\<close> are the pointers \<open>p, p + 1, \<dots>, p + (n - 1)\<close>.
\<close>

definition add_log :: "event list \<Rightarrow> 'a mem \<Rightarrow> 'a mem" where
  "add_log es m = m\<lparr>log := log m @ es\<rparr>"

definition new_block :: "nat \<Rightarrow> 'a mem \<Rightarrow> 'a mem" where
  "new_block n m = m\<lparr>blocks := blocks m @ [Some (replicate n Raw)]\<rparr>"

definition ptr_range :: "ptr \<Rightarrow> nat \<Rightarrow> ptr list" where
  "ptr_range p n = map (\<lambda>k. ptr_add p (int k)) [0..<n]"

text \<open>
  The relocation policy in the words of the specification: \<open>n\<close> elements go from \<open>src\<close> to
  \<open>dst\<close> in index order, each by a move if the element type's move construction cannot
  fail or the type cannot be copied, each by a copy otherwise; then the \<open>n\<close> source
  elements are destructed.
\<close>

definition relocation_events :: "'a elem_type \<Rightarrow> ptr \<Rightarrow> nat \<Rightarrow> ptr \<Rightarrow> event list" where
  "relocation_events T src n dst =
     (if is_nothrow_move_constructible T \<or> \<not> is_copy_constructible T
      then map2 MoveCtor (ptr_range dst n) (ptr_range src n)
      else map2 CopyCtor (ptr_range dst n) (ptr_range src n))
     @ map Dtor (ptr_range src n)"

text \<open>What a caller sees after a positional operation: size, capacity and the slots.\<close>

definition observe :: "error + ((ptr \<times> Vector) \<times> 'a mem) \<Rightarrow> (nat \<times> nat \<times> 'a slot option list) option" where
  "observe r = (case r of Inl e \<Rightarrow> None | Inr ((p, v), m) \<Rightarrow> Some (Size v, Capacity v, contents m v))"


section \<open>Sample element types and states\<close>

text \<open>
  \<open>int_elem\<close> is \<^verbatim>\<open>int\<close>: a move leaves the source as it was. \<open>unique_ptr_elem\<close> is
  \<^verbatim>\<open>std::unique_ptr<int>\<close>, \<open>None\<close> the null pointer: it cannot be copied, and a move
  leaves the source null.
\<close>

definition int_elem :: "int elem_type" where
  "int_elem = \<lparr>sizeof = 4, is_nothrow_move_constructible = True, is_copy_constructible = True,
     moved_from = (\<lambda>x. x), value_initialized = 0\<rparr>"

definition unique_ptr_elem :: "int option elem_type" where
  "unique_ptr_elem = \<lparr>sizeof = 8, is_nothrow_move_constructible = True, is_copy_constructible = False,
     moved_from = (\<lambda>x. None), value_initialized = None\<rparr>"

text \<open>\<open>vec3\<close> in \<open>mem3 a b c\<close> holds \<open>[a, b, c]\<close> with capacity 4; \<open>vec1\<close> in \<open>mem1\<close> is full.\<close>

definition mem3 :: "'a \<Rightarrow> 'a \<Rightarrow> 'a \<Rightarrow> 'a mem" where
  "mem3 a b c = \<lparr>blocks = [Some [Obj a, Obj b, Obj c, Raw]], alloc_limit = 1024, log = []\<rparr>"

definition vec3 :: Vector where
  "vec3 = \<lparr>data_' = \<lparr>buffer_' = Ptr 1 0, capacity_' = 4\<rparr>, size_' = 3\<rparr>"

definition mem1 :: "int mem" where
  "mem1 = \<lparr>blocks = [Some [Obj 1]], alloc_limit = 1024, log = []\<rparr>"

definition vec1 :: Vector where
  "vec1 = \<lparr>data_' = \<lparr>buffer_' = Ptr 1 0, capacity_' = 1\<rparr>, size_' = 1\<rparr>"

definition empty_vec :: Vector where
  "empty_vec = \<lparr>data_' = RawMemory_default, size_' = 0\<rparr>"

text \<open>\<open>reserved_vec\<close> in \<open>reserved_mem\<close> is empty with capacity 2.\<close>

definition reserved_mem :: "int mem" where
  "reserved_mem = \<lparr>blocks = [Some [Raw, Raw]], alloc_limit = 1024, log = []\<rparr>"

definition reserved_vec :: Vector where
  "reserved_vec = \<lparr>data_' = \<lparr>buffer_' = Ptr 1 0, capacity_' = 2\<rparr>, size_' = 0\<rparr>"




text \<open>
  \<open>mem_pair\<close> holds two Vectors: \<open>vec1\<close> with \<open>[7]\<close>, full, and \<open>vec_second\<close> with
  \<open>[1, 2, 3]\<close> and capacity 4.
\<close>

definition mem_pair :: "int mem" where
  "mem_pair = \<lparr>blocks = [Some [Obj 7], Some [Obj 1, Obj 2, Obj 3, Raw]], alloc_limit = 1024, log = []\<rparr>"

definition vec_second :: Vector where
  "vec_second = \<lparr>data_' = \<lparr>buffer_' = Ptr 2 0, capacity_' = 4\<rparr>, size_' = 3\<rparr>"

section \<open>The monad and the memory\<close>

lemma bindM_returnM [simp]: "bindM (returnM x) g = g x"
  by (rule ext) (simp add: bindM_def returnM_def)

lemma bindM_failM [simp]: "bindM (failM e) g = failM e"
  by (rule ext) (simp add: bindM_def failM_def)

lemma bindM_Inr: "f m = Inr (r, m') \<Longrightarrow> bindM f g m = g r m'"
  by (simp add: bindM_def)

lemma record_event_add_log: "record_event e m = add_log [e] m"
  by (simp add: record_event_def add_log_def)

lemma add_log_Nil [simp]: "add_log [] m = m"
  by (simp add: add_log_def)

lemma add_log_add_log [simp]: "add_log es' (add_log es m) = add_log (es @ es') m"
  by (simp add: add_log_def)

lemma set_block_add_log [simp]: "set_block b x (add_log es m) = add_log es (set_block b x m)"
  by (simp add: add_log_def set_block_def)

lemma set_block_set_block [simp]: "set_block b x (set_block b y m) = set_block b x m"
  by (simp add: set_block_def)

lemma block_at_add_log [simp]: "block_at (add_log es m) = block_at m"
  by (rule ext) (simp add: add_log_def block_at_def)

lemma log_add_log [simp]: "log (add_log es m) = log m @ es"
  by (simp add: add_log_def)

lemma log_set_block [simp]: "log (set_block b x m) = log m"
  by (simp add: set_block_def)

lemma alloc_limit_add_log [simp]: "alloc_limit (add_log es m) = alloc_limit m"
  by (simp add: add_log_def)

lemma alloc_limit_set_block [simp]: "alloc_limit (set_block b x m) = alloc_limit m"
  by (simp add: set_block_def)

lemma length_blocks_add_log [simp]: "length (blocks (add_log es m)) = length (blocks m)"
  by (simp add: add_log_def)

lemma length_blocks_set_block [simp]: "length (blocks (set_block b x m)) = length (blocks m)"
  by (simp add: set_block_def)

lemma block_at_SomeD: "block_at m a = Some blk \<Longrightarrow> 0 < a \<and> a \<le> length (blocks m)"
  by (auto simp: block_at_def split: if_splits)

lemma block_at_set_block:
  "0 < b \<Longrightarrow> b \<le> length (blocks m) \<Longrightarrow> block_at (set_block b x m) c = (if c = b then x else block_at m c)"
  by (auto simp: block_at_def set_block_def nth_list_update)

lemma set_block_swap:
  assumes "0 < a" "0 < b" "a \<noteq> b"
  shows "set_block a x (set_block b y m) = set_block b y (set_block a x m)"
proof -
  from assms have "b - 1 \<noteq> a - 1" by arith
  then have "(blocks m)[b - 1 := y, a - 1 := x] = (blocks m)[a - 1 := x, b - 1 := y]"
    by (rule list_update_swap)
  then show ?thesis by (simp add: set_block_def)
qed

lemma set_block_cover:
  assumes "0 < a" "0 < b" "a \<noteq> b"
  shows "set_block a x (set_block b y (set_block a z m)) = set_block a x (set_block b y m)"
proof -
  have "set_block b y (set_block a z m) = set_block a z (set_block b y m)"
    using assms by (simp add: set_block_swap)
  then show ?thesis by simp
qed

lemma set_block_same: "block_at m a = Some blk \<Longrightarrow> set_block a (Some blk) m = m"
  by (auto simp: block_at_def set_block_def list_update_same_conv split: if_splits)

section \<open>Element operations and standard algorithms on blocks\<close>

text \<open>
  Each lemma of this section gives the exact outcome of one operation on blocks written
  as \<open>pre @ \<dots> @ post\<close>: the pointer is at offset \<open>length pre\<close>, the slots it works on are
  the middle part.
\<close>

lemma slot_at_append:
  "block_at m a = Some (pre @ s # post) \<Longrightarrow> slot_at m (Ptr a (int (length pre))) = Some s"
  by (simp add: slot_at_def)

lemma put_slot_append:
  "block_at m a = Some (pre @ s # post) \<Longrightarrow>
   put_slot (Ptr a (int (length pre))) v m = set_block a (Some (pre @ v # post)) m"
  by (simp add: put_slot_def)

lemma ptr_add_Ptr [simp]: "ptr_add (Ptr a i) k = Ptr a (i + k)"
  by (simp add: ptr_add_def)

lemma construct_at_blocks:
  assumes "block_at m a = Some (pre @ s # post)" "i = length pre"
  shows "construct_at (Ptr a (int i)) x m =
         Inr ((), add_log [Ctor (Ptr a (int i))] (set_block a (Some (pre @ Obj x # post)) m))"
  using assms by (simp add: construct_at_def slot_at_append put_slot_append record_event_add_log)

lemma destroy_at_blocks:
  assumes "block_at m a = Some (pre @ Obj x # post)" "i = length pre"
  shows "destroy_at (Ptr a (int i)) m =
         Inr ((), add_log [Dtor (Ptr a (int i))] (set_block a (Some (pre @ Raw # post)) m))"
  using assms by (simp add: destroy_at_def slot_at_append put_slot_append record_event_add_log)

lemma copy_construct_blocks:
  assumes "block_at m a = Some (sa @ Obj x # sb)" "block_at m b = Some (da @ d # db)"
    "i = length sa" "j = length da"
  shows "copy_construct (Ptr b (int j)) (Ptr a (int i)) m =
         Inr ((), add_log [CopyCtor (Ptr b (int j)) (Ptr a (int i))] (set_block b (Some (da @ Obj x # db)) m))"
  using assms by (simp add: copy_construct_def slot_at_append put_slot_append record_event_add_log)

lemma copy_assign_blocks:
  assumes "block_at m a = Some (sa @ Obj x # sb)" "block_at m b = Some (da @ Obj y # db)"
    "i = length sa" "j = length da"
  shows "copy_assign (Ptr b (int j)) (Ptr a (int i)) m =
         Inr ((), add_log [CopyAssign (Ptr b (int j)) (Ptr a (int i))] (set_block b (Some (da @ Obj x # db)) m))"
  using assms by (simp add: copy_assign_def slot_at_append put_slot_append record_event_add_log)

lemma move_construct_blocks:
  assumes "block_at m a = Some (sa @ Obj x # sb)" "block_at m b = Some (da @ d # db)"
    "i = length sa" "j = length da" "a \<noteq> b"
  shows "move_construct T (Ptr b (int j)) (Ptr a (int i)) m =
         Inr ((), add_log [MoveCtor (Ptr b (int j)) (Ptr a (int i))]
                    (set_block b (Some (da @ Obj x # db)) (set_block a (Some (sa @ Obj (moved_from T x) # sb)) m)))"
proof -
  from assms(1) have va: "0 < a" "a \<le> length (blocks m)" by (auto dest: block_at_SomeD)
  have "block_at (set_block a (Some (sa @ Obj (moved_from T x) # sb)) m) b = Some (da @ d # db)"
    using assms va by (simp add: block_at_set_block)
  then show ?thesis
    using assms by (simp add: move_construct_def slot_at_append put_slot_append record_event_add_log)
qed


lemma ptr_range_0 [simp]: "ptr_range p 0 = []"
  by (simp add: ptr_range_def)

lemma ptr_range_Suc: "ptr_range p (Suc n) = p # ptr_range (ptr_add p 1) n"
proof -
  have "ptr_add p 0 = p" by (cases p) simp
  moreover have "\<And>k. ptr_add p (int (Suc k)) = ptr_add (ptr_add p 1) (int k)"
    by (cases p) simp
  ultimately show ?thesis
    unfolding ptr_range_def by (simp add: map_upt_Suc del: upt_Suc)
qed

lemma length_ptr_range [simp]: "length (ptr_range p n) = n"
  by (simp add: ptr_range_def)

lemma Ptr_Suc: "Ptr a (int i + 1) = Ptr a (int (Suc i))"
  by simp

lemma uninitialized_copy_n_blocks:
  assumes "block_at m a = Some (sa @ map Obj xs @ sb)" "block_at m b = Some (da @ ds @ db)"
    "length ds = length xs" "a \<noteq> b"
  shows "uninitialized_copy_n (Ptr a (int (length sa))) (length xs) (Ptr b (int (length da))) m =
         Inr ((), add_log (map2 CopyCtor (ptr_range (Ptr b (int (length da))) (length xs))
                                          (ptr_range (Ptr a (int (length sa))) (length xs)))
                    (set_block b (Some (da @ map Obj xs @ db)) m))"
  using assms
proof (induction xs arbitrary: sa da ds m)
  case Nil
  then show ?case by (simp add: returnM_def set_block_same)
next
  case (Cons x xs)
  from Cons.prems(3) obtain d ds' where ds: "ds = d # ds'" and len: "length ds' = length xs"
    by (cases ds) auto
  from Cons.prems(2) have vb: "0 < b" "b \<le> length (blocks m)" by (auto dest: block_at_SomeD)
  let ?e = "CopyCtor (Ptr b (int (length da))) (Ptr a (int (length sa)))"
  let ?m1 = "add_log [?e] (set_block b (Some (da @ Obj x # ds' @ db)) m)"
  have step: "copy_construct (Ptr b (int (length da))) (Ptr a (int (length sa))) m = Inr ((), ?m1)"
    using Cons.prems(1,2) ds by (intro copy_construct_blocks[where sb = "map Obj xs @ sb" and d = d]) auto
  have a1: "block_at ?m1 a = Some ((sa @ [Obj x]) @ map Obj xs @ sb)"
    using Cons.prems(1,4) vb by (simp add: block_at_set_block)
  have b1: "block_at ?m1 b = Some ((da @ [Obj x]) @ ds' @ db)"
    using vb by (simp add: block_at_set_block)
  note ih = Cons.IH[OF a1 b1 len Cons.prems(4)]
  show ?case
    using step ih by (simp add: bindM_Inr ptr_range_Suc Ptr_Suc)
qed

lemma uninitialized_move_n_blocks:
  assumes "block_at m a = Some (sa @ map Obj xs @ sb)" "block_at m b = Some (da @ ds @ db)"
    "length ds = length xs" "a \<noteq> b"
  shows "uninitialized_move_n T (Ptr a (int (length sa))) (length xs) (Ptr b (int (length da))) m =
         Inr ((), add_log (map2 MoveCtor (ptr_range (Ptr b (int (length da))) (length xs))
                                          (ptr_range (Ptr a (int (length sa))) (length xs)))
                    (set_block b (Some (da @ map Obj xs @ db))
                      (set_block a (Some (sa @ map (\<lambda>x. Obj (moved_from T x)) xs @ sb)) m)))"
  using assms
proof (induction xs arbitrary: sa da ds m)
  case Nil
  then show ?case by (simp add: returnM_def set_block_same)
next
  case (Cons x xs)
  from Cons.prems(3) obtain d ds' where ds: "ds = d # ds'" and len: "length ds' = length xs"
    by (cases ds) auto
  from Cons.prems(1) have va: "0 < a" "a \<le> length (blocks m)" by (auto dest: block_at_SomeD)
  from Cons.prems(2) have vb: "0 < b" "b \<le> length (blocks m)" by (auto dest: block_at_SomeD)
  let ?e = "MoveCtor (Ptr b (int (length da))) (Ptr a (int (length sa)))"
  let ?m1 = "add_log [?e] (set_block b (Some (da @ Obj x # ds' @ db))
               (set_block a (Some (sa @ Obj (moved_from T x) # map Obj xs @ sb)) m))"
  have step: "move_construct T (Ptr b (int (length da))) (Ptr a (int (length sa))) m = Inr ((), ?m1)"
    using Cons.prems(1,2,4) ds by (intro move_construct_blocks[where d = d]) auto
  have a1: "block_at ?m1 a = Some ((sa @ [Obj (moved_from T x)]) @ map Obj xs @ sb)"
    using Cons.prems(4) va vb by (simp add: block_at_set_block)
  have b1: "block_at ?m1 b = Some ((da @ [Obj x]) @ ds' @ db)"
    using vb by (simp add: block_at_set_block)
  note ih = Cons.IH[OF a1 b1 len Cons.prems(4)]
  have norm: "\<And>X Y. set_block b X (set_block a Y
                 (set_block b (Some (da @ Obj x # ds' @ db))
                   (set_block a (Some (sa @ Obj (moved_from T x) # map Obj xs @ sb)) m))) =
               set_block b X (set_block a Y m)"
    using va vb Cons.prems(4) by (simp add: set_block_swap[of a b])
  show ?case
    using step ih by (simp add: bindM_Inr ptr_range_Suc Ptr_Suc norm)
qed

lemma destroy_n_blocks:
  assumes "block_at m a = Some (pre @ map Obj xs @ post)"
  shows "destroy_n (Ptr a (int (length pre))) (length xs) m =
         Inr ((), add_log (map Dtor (ptr_range (Ptr a (int (length pre))) (length xs)))
                    (set_block a (Some (pre @ replicate (length xs) Raw @ post)) m))"
  using assms
proof (induction xs arbitrary: pre m)
  case Nil
  then show ?case by (simp add: returnM_def set_block_same)
next
  case (Cons x xs)
  from Cons.prems have va: "0 < a" "a \<le> length (blocks m)" by (auto dest: block_at_SomeD)
  let ?m1 = "add_log [Dtor (Ptr a (int (length pre)))] (set_block a (Some (pre @ Raw # map Obj xs @ post)) m)"
  have step: "destroy_at (Ptr a (int (length pre))) m = Inr ((), ?m1)"
    using Cons.prems by (intro destroy_at_blocks[where x = x]) auto
  have a1: "block_at ?m1 a = Some ((pre @ [Raw]) @ map Obj xs @ post)"
    using va by (simp add: block_at_set_block)
  note ih = Cons.IH[OF a1]
  show ?case
    using step ih by (simp add: bindM_Inr ptr_range_Suc Ptr_Suc replicate_app_Cons_same)
qed

lemma uninitialized_value_construct_n_blocks:
  assumes "block_at m a = Some (pre @ ds @ post)"
  shows "uninitialized_value_construct_n T (Ptr a (int (length pre))) (length ds) m =
         Inr ((), add_log (map Ctor (ptr_range (Ptr a (int (length pre))) (length ds)))
                    (set_block a (Some (pre @ replicate (length ds) (Obj (value_initialized T)) @ post)) m))"
  using assms
proof (induction ds arbitrary: pre m)
  case Nil
  then show ?case by (simp add: returnM_def set_block_same)
next
  case (Cons d ds)
  from Cons.prems have va: "0 < a" "a \<le> length (blocks m)" by (auto dest: block_at_SomeD)
  let ?v = "Obj (value_initialized T)"
  let ?m1 = "add_log [Ctor (Ptr a (int (length pre)))] (set_block a (Some (pre @ ?v # ds @ post)) m)"
  have step: "construct_at (Ptr a (int (length pre))) (value_initialized T) m = Inr ((), ?m1)"
    using Cons.prems by (intro construct_at_blocks[where s = d]) auto
  have a1: "block_at ?m1 a = Some ((pre @ [?v]) @ ds @ post)"
    using va by (simp add: block_at_set_block)
  note ih = Cons.IH[OF a1]
  show ?case
    using step ih by (simp add: bindM_Inr ptr_range_Suc Ptr_Suc replicate_app_Cons_same)
qed

lemma copy_loop_blocks:
  assumes "block_at m a = Some (sa @ map Obj xs @ sb)" "block_at m b = Some (da @ map Obj ys @ db)"
    "length ys = length xs" "a \<noteq> b"
  shows "copy_loop (Ptr a (int (length sa))) (length xs) (Ptr b (int (length da))) m =
         Inr ((), add_log (map2 CopyAssign (ptr_range (Ptr b (int (length da))) (length xs))
                                            (ptr_range (Ptr a (int (length sa))) (length xs)))
                    (set_block b (Some (da @ map Obj xs @ db)) m))"
  using assms
proof (induction xs arbitrary: sa da ys m)
  case Nil
  then show ?case by (simp add: returnM_def set_block_same)
next
  case (Cons x xs)
  from Cons.prems(3) obtain y ys' where ys: "ys = y # ys'" and len: "length ys' = length xs"
    by (cases ys) auto
  from Cons.prems(2) have vb: "0 < b" "b \<le> length (blocks m)" by (auto dest: block_at_SomeD)
  let ?e = "CopyAssign (Ptr b (int (length da))) (Ptr a (int (length sa)))"
  let ?m1 = "add_log [?e] (set_block b (Some (da @ Obj x # map Obj ys' @ db)) m)"
  have step: "copy_assign (Ptr b (int (length da))) (Ptr a (int (length sa))) m = Inr ((), ?m1)"
    using Cons.prems(1,2) ys by (intro copy_assign_blocks[where sb = "map Obj xs @ sb" and y = y]) auto
  have a1: "block_at ?m1 a = Some ((sa @ [Obj x]) @ map Obj xs @ sb)"
    using Cons.prems(1,4) vb by (simp add: block_at_set_block)
  have b1: "block_at ?m1 b = Some ((da @ [Obj x]) @ map Obj ys' @ db)"
    using vb by (simp add: block_at_set_block)
  note ih = Cons.IH[OF a1 b1 len Cons.prems(4)]
  show ?case
    using step ih by (simp add: bindM_Inr ptr_range_Suc Ptr_Suc)
qed


section \<open>Allocation and relocation\<close>

lemma block_at_new_block:
  "block_at (new_block n m) c =
     (if c = Suc (length (blocks m)) then Some (replicate n Raw) else block_at m c)"
  by (auto simp: block_at_def new_block_def nth_append)

lemma length_blocks_new_block [simp]: "length (blocks (new_block n m)) = Suc (length (blocks m))"
  by (simp add: new_block_def)

lemma log_new_block [simp]: "log (new_block n m) = log m"
  by (simp add: new_block_def)

lemma alloc_limit_new_block [simp]: "alloc_limit (new_block n m) = alloc_limit m"
  by (simp add: new_block_def)

lemma RawMemory_ctor_ok:
  assumes "0 < n" "n * sizeof T \<le> alloc_limit m" "alloc_limit m < 2 ^ 64" "0 < sizeof T"
  shows "RawMemory_ctor T n m =
         Inr (\<lparr>buffer_' = Ptr (Suc (length (blocks m))) 0, capacity_' = n\<rparr>, new_block n m)"
proof -
  have "size_t_mul n (sizeof T) = n * sizeof T"
    using assms by (simp add: size_t_mul_def)
  moreover have "n * sizeof T div sizeof T = n"
    using assms by simp
  ultimately show ?thesis
    using assms
    by (simp add: RawMemory_ctor_def Allocate_def operator_new_def bindM_def returnM_def new_block_def)
qed

lemma RawMemory_dtor_null: "RawMemory_dtor \<lparr>buffer_' = nullptr, capacity_' = c\<rparr> m = Inr ((), m)"
  by (simp add: RawMemory_dtor_def Deallocate_def operator_delete_def)

lemma RawMemory_dtor_block:
  assumes "block_at m a = Some blk"
  shows "RawMemory_dtor \<lparr>buffer_' = Ptr a 0, capacity_' = c\<rparr> m = Inr ((), set_block a None m)"
proof -
  from assms have "0 < a" by (auto dest: block_at_SomeD)
  then show ?thesis
    using assms by (simp add: RawMemory_dtor_def Deallocate_def operator_delete_def nullptr_def)
qed

lemma MoveElements_0: "MoveElements T p 0 q m = Inr ((), m)"
  by (simp add: MoveElements_def returnM_def)

lemma MoveElements_blocks:
  assumes "block_at m a = Some (sa @ map Obj xs @ sb)" "block_at m b = Some (da @ ds @ db)"
    "length ds = length xs" "a \<noteq> b"
  shows "MoveElements T (Ptr a (int (length sa))) (length xs) (Ptr b (int (length da))) m =
         Inr ((), add_log
                    ((if is_nothrow_move_constructible T \<or> \<not> is_copy_constructible T
                      then map2 MoveCtor (ptr_range (Ptr b (int (length da))) (length xs))
                                         (ptr_range (Ptr a (int (length sa))) (length xs))
                      else map2 CopyCtor (ptr_range (Ptr b (int (length da))) (length xs))
                                         (ptr_range (Ptr a (int (length sa))) (length xs)))
                     @ map Dtor (ptr_range (Ptr a (int (length sa))) (length xs)))
                    (set_block a (Some (sa @ replicate (length xs) Raw @ sb))
                      (set_block b (Some (da @ map Obj xs @ db)) m)))"
proof -
  from assms(1) have va: "0 < a" "a \<le> length (blocks m)" by (auto dest: block_at_SomeD)
  from assms(2) have vb: "0 < b" "b \<le> length (blocks m)" by (auto dest: block_at_SomeD)
  show ?thesis
  proof (cases "is_nothrow_move_constructible T \<or> \<not> is_copy_constructible T")
    case True
    let ?m1 = "add_log (map2 MoveCtor (ptr_range (Ptr b (int (length da))) (length xs))
                                      (ptr_range (Ptr a (int (length sa))) (length xs)))
                 (set_block b (Some (da @ map Obj xs @ db))
                   (set_block a (Some (sa @ map (\<lambda>x. Obj (moved_from T x)) xs @ sb)) m))"
    have mv: "uninitialized_move_n T (Ptr a (int (length sa))) (length xs) (Ptr b (int (length da))) m = Inr ((), ?m1)"
      by (rule uninitialized_move_n_blocks[OF assms])
    have "block_at ?m1 a = Some (sa @ map Obj (map (moved_from T) xs) @ sb)"
      using va vb assms(4) by (simp add: block_at_set_block comp_def)
    from destroy_n_blocks[OF this]
    have "destroy_n (Ptr a (int (length sa))) (length xs) ?m1 =
          Inr ((), add_log (map Dtor (ptr_range (Ptr a (int (length sa))) (length xs)))
                     (set_block a (Some (sa @ replicate (length xs) Raw @ sb)) ?m1))"
      by simp
    then show ?thesis
      using True mv va vb assms(4)
      by (simp add: MoveElements_def bindM_Inr set_block_cover)
  next
    case False
    let ?m1 = "add_log (map2 CopyCtor (ptr_range (Ptr b (int (length da))) (length xs))
                                      (ptr_range (Ptr a (int (length sa))) (length xs)))
                 (set_block b (Some (da @ map Obj xs @ db)) m)"
    have cp: "uninitialized_copy_n (Ptr a (int (length sa))) (length xs) (Ptr b (int (length da))) m = Inr ((), ?m1)"
      by (rule uninitialized_copy_n_blocks[OF assms])
    have "block_at ?m1 a = Some (sa @ map Obj xs @ sb)"
      using va vb assms by (simp add: block_at_set_block)
    from destroy_n_blocks[OF this]
    have "destroy_n (Ptr a (int (length sa))) (length xs) ?m1 =
          Inr ((), add_log (map Dtor (ptr_range (Ptr a (int (length sa))) (length xs)))
                     (set_block a (Some (sa @ replicate (length xs) Raw @ sb)) ?m1))" .
    then show ?thesis
      using False cp by (simp add: MoveElements_def bindM_Inr)
  qed
qed

section \<open>Well-formed Vectors\<close>

lemma RawMemory_eta: "r\<lparr>buffer_' := p, capacity_' := c\<rparr> = \<lparr>buffer_' = p, capacity_' = c\<rparr>"
  by (cases r) simp

lemma vec_rep_null:
  assumes "vec_rep m v xs" "capacity_' (data_' v) = 0"
  shows "xs = []" "data_' v = RawMemory_default" "size_' v = 0"
  using assms by (cases "data_' v"; simp add: vec_rep_def RawMemory_default_def)+

lemma vec_rep_block:
  assumes "vec_rep m v xs" "0 < capacity_' (data_' v)"
  obtains a where "data_' v = \<lparr>buffer_' = Ptr a 0, capacity_' = capacity_' (data_' v)\<rparr>"
    "block_at m a = Some (map Obj xs @ replicate (capacity_' (data_' v) - length xs) Raw)"
    "size_' v = length xs" "length xs \<le> capacity_' (data_' v)"
proof -
  obtain p c where d: "data_' v = \<lparr>buffer_' = p, capacity_' = c\<rparr>" by (cases "data_' v") auto
  obtain a i where p: "p = Ptr a i" by (cases p) auto
  from assms d p have "i = 0" by (simp add: vec_rep_def)
  with assms d p show ?thesis
    by (intro that[of a]) (simp_all add: vec_rep_def)
qed

lemma relocation_events_0 [simp]: "relocation_events T src 0 dst = []"
  by (simp add: relocation_events_def)

section \<open>Growth\<close>

text \<open>
  \<^verbatim>\<open>Reserve\<close> beyond the capacity, \<^verbatim>\<open>Resize\<close> beyond the capacity and \<^verbatim>\<open>Emplace\<close> at capacity,
  on a Vector that satisfies the state invariant: each succeeds when its allocation is
  granted, and the Vector it returns satisfies the invariant again.
\<close>

lemma Reserve_grow:
  assumes rep: "vec_rep m v xs" and gt: "capacity_' (data_' v) < n"
    and alloc: "n * sizeof T \<le> alloc_limit m" "alloc_limit m < 2 ^ 64" "0 < sizeof T"
  shows "\<exists>m'. Reserve T n v m =
           Inr (v\<lparr>data_' := \<lparr>buffer_' = Ptr (Suc (length (blocks m))) 0, capacity_' = n\<rparr>\<rparr>, m') \<and>
         vec_rep m' (v\<lparr>data_' := \<lparr>buffer_' = Ptr (Suc (length (blocks m))) 0, capacity_' = n\<rparr>\<rparr>) xs \<and>
         log m' = log m @ relocation_events T (buffer_' (data_' v)) (length xs) (Ptr (Suc (length (blocks m))) 0) \<and>
         alloc_limit m' = alloc_limit m"
proof -
  let ?b = "Suc (length (blocks m))"
  let ?m1 = "new_block n m"
  from gt have n0: "0 < n" by simp
  have ctor: "RawMemory_ctor T n m = Inr (\<lparr>buffer_' = Ptr ?b 0, capacity_' = n\<rparr>, ?m1)"
    using n0 alloc by (rule RawMemory_ctor_ok)
  show ?thesis
  proof (cases "capacity_' (data_' v) = 0")
    case True
    note nul = vec_rep_null[OF rep True]
    have "vec_rep ?m1 (v\<lparr>data_' := \<lparr>buffer_' = Ptr ?b 0, capacity_' = n\<rparr>\<rparr>) xs"
      using nul n0 by (simp add: vec_rep_def block_at_new_block)
    moreover have "Reserve T n v m = Inr (v\<lparr>data_' := \<lparr>buffer_' = Ptr ?b 0, capacity_' = n\<rparr>\<rparr>, ?m1)"
      using gt ctor nul
      by (simp add: Reserve_def RawMemory_Capacity_def bindM_Inr GetAddress_def MoveElements_0
          RawMemory_Swap_def RawMemory_default_def RawMemory_dtor_null returnM_def)
    ultimately show ?thesis using nul by auto
  next
    case False
    then have cpos: "0 < capacity_' (data_' v)" by simp
    from vec_rep_block[OF rep cpos] obtain a where
      d: "data_' v = \<lparr>buffer_' = Ptr a 0, capacity_' = capacity_' (data_' v)\<rparr>" and
      blk: "block_at m a = Some (map Obj xs @ replicate (capacity_' (data_' v) - length xs) Raw)" and
      sz: "size_' v = length xs" and le: "length xs \<le> capacity_' (data_' v)"
      by blast
    let ?c = "capacity_' (data_' v)"
    from blk have va: "0 < a" "a \<le> length (blocks m)" by (auto dest: block_at_SomeD)
    then have ab: "a \<noteq> ?b" by simp
    have a1: "block_at ?m1 a = Some ([] @ map Obj xs @ replicate (?c - length xs) Raw)"
      using blk va by (simp add: block_at_new_block)
    have "replicate n (Raw :: 'a slot) = replicate (length xs) Raw @ replicate (n - length xs) Raw"
      using le gt by (simp add: replicate_add[symmetric])
    then have b1: "block_at ?m1 ?b = Some ([] @ replicate (length xs) Raw @ replicate (n - length xs) Raw)"
      by (simp add: block_at_new_block)
    let ?m2 = "add_log (relocation_events T (Ptr a 0) (length xs) (Ptr ?b 0))
                 (set_block a (Some (replicate (length xs) Raw @ replicate (?c - length xs) Raw))
                   (set_block ?b (Some (map Obj xs @ replicate (n - length xs) Raw)) ?m1))"
    have mv: "MoveElements T (Ptr a 0) (length xs) (Ptr ?b 0) ?m1 = Inr ((), ?m2)"
      using MoveElements_blocks[OF a1 b1 _ ab, of T] by (simp add: relocation_events_def)
    have a2: "block_at ?m2 a = Some (replicate (length xs) Raw @ replicate (?c - length xs) Raw)"
      using va by (simp add: block_at_set_block)
    have dt: "RawMemory_dtor \<lparr>buffer_' = Ptr a 0, capacity_' = ?c\<rparr> ?m2 = Inr ((), set_block a None ?m2)"
      using a2 by (rule RawMemory_dtor_block)
    have bufa: "buffer_' (data_' v) = Ptr a 0" by (subst d) simp
    have res: "Reserve T n v m =
                 Inr (v\<lparr>data_' := \<lparr>buffer_' = Ptr ?b 0, capacity_' = n\<rparr>\<rparr>, set_block a None ?m2)"
      using gt ctor mv dt sz bufa
      by (simp add: Reserve_def RawMemory_Capacity_def bindM_Inr GetAddress_def
          RawMemory_Swap_def RawMemory_eta returnM_def)
    have "block_at (set_block a None ?m2) ?b = Some (map Obj xs @ replicate (n - length xs) Raw)"
      using va ab by (simp add: block_at_set_block)
    then have "vec_rep (set_block a None ?m2) (v\<lparr>data_' := \<lparr>buffer_' = Ptr ?b 0, capacity_' = n\<rparr>\<rparr>) xs"
      using sz le gt by (simp add: vec_rep_def)
    with res bufa show ?thesis by auto
  qed
qed

lemma replicate_split:
  assumes "p < n"
  shows "replicate n x = replicate p x @ x # replicate (n - Suc p) x"
proof -
  from assms obtain k where "n = Suc (p + k)"
    by (auto dest: less_imp_Suc_add)
  then show ?thesis
    by (simp add: replicate_add replicate_append_same)
qed

lemma size_t_of_int_nat:
  assumes "p < 2 ^ 64"
  shows "size_t_of_int (int p) = p"
proof -
  have "int (p mod 2 ^ 64) = int p mod 2 ^ 64"
    by (simp add: zmod_int)
  then have "nat (int p mod 2 ^ 64) = p mod 2 ^ 64"
    by (metis nat_int)
  with assms show ?thesis
    by (simp add: size_t_of_int_def)
qed

lemma Resize_grow:
  assumes rep: "vec_rep m v xs" and gt: "capacity_' (data_' v) < n"
    and alloc: "n * sizeof T \<le> alloc_limit m" "alloc_limit m < 2 ^ 64" "0 < sizeof T"
  shows "\<exists>v' m'. Resize T n v m = Inr (v', m') \<and>
           vec_rep m' v' (xs @ replicate (n - length xs) (value_initialized T)) \<and>
           capacity_' (data_' v') = n"
proof -
  let ?b = "Suc (length (blocks m))"
  let ?v1 = "v\<lparr>data_' := \<lparr>buffer_' = Ptr ?b 0, capacity_' = n\<rparr>\<rparr>"
  from Reserve_grow[OF rep gt alloc] obtain m1 where
    res: "Reserve T n v m = Inr (?v1, m1)" and rep1: "vec_rep m1 ?v1 xs"
    by blast
  from rep gt have sz: "size_' v = length xs" and lt: "length xs < n"
    by (auto simp: vec_rep_def)
  from rep1 lt have b1: "block_at m1 ?b = Some (map Obj xs @ replicate (n - length xs) Raw @ [])"
    by (simp add: vec_rep_def)
  then have vb: "0 < ?b" "?b \<le> length (blocks m1)" by (auto dest: block_at_SomeD)
  let ?m2 = "add_log (map Ctor (ptr_range (Ptr ?b (int (length xs))) (n - length xs)))
               (set_block ?b (Some (map Obj xs @ replicate (n - length xs) (Obj (value_initialized T)))) m1)"
  have vc: "uninitialized_value_construct_n T (Ptr ?b (int (length xs))) (n - length xs) m1 = Inr ((), ?m2)"
    using uninitialized_value_construct_n_blocks[OF b1, of T] by simp
  have "Resize T n v m = Inr (?v1\<lparr>size_' := n\<rparr>, ?m2)"
    using lt sz res vc by (simp add: Resize_def bindM_Inr GetAddress_def returnM_def)
  moreover have "vec_rep ?m2 (?v1\<lparr>size_' := n\<rparr>) (xs @ replicate (n - length xs) (value_initialized T))"
    using lt vb by (simp add: vec_rep_def block_at_set_block)
  ultimately show ?thesis by auto
qed

lemma EmplaceWithReallocation_full:
  assumes rep: "vec_rep m v xs" and full: "size_' v = capacity_' (data_' v)" and p: "p \<le> length xs"
    and alloc: "(if length xs = 0 then 1 else 2 * length xs) * sizeof T \<le> alloc_limit m"
      "alloc_limit m < 2 ^ 64" "0 < sizeof T"
  shows "\<exists>v' m'. EmplaceWithReallocation T v (ptr_add (Vector_begin v) (int p)) x m =
                   Inr ((ptr_add (Vector_begin v') (int p), v'), m') \<and>
           vec_rep m' v' (take p xs @ x # drop p xs) \<and>
           capacity_' (data_' v') = (if length xs = 0 then 1 else 2 * length xs) \<and>
           log m' = log m @ Ctor (ptr_add (Vector_begin v') (int p)) #
             relocation_events T (Vector_begin v) p (Vector_begin v') @
             relocation_events T (ptr_add (Vector_begin v) (int p)) (length xs - p)
               (ptr_add (Vector_begin v') (int p + 1))"
proof -
  let ?n = "if length xs = 0 then 1 else 2 * length xs"
  let ?b = "Suc (length (blocks m))"
  let ?m1 = "new_block ?n m"
  let ?nd = "\<lparr>buffer_' = Ptr ?b 0, capacity_' = ?n\<rparr>"
  let ?v' = "v\<lparr>data_' := ?nd, size_' := Suc (length xs)\<rparr>"
  from rep have sz: "size_' v = length xs" by (simp add: vec_rep_def)
  with full have cap: "capacity_' (data_' v) = length xs" by simp
  have n0: "0 < ?n" by simp
  have "?n \<le> ?n * sizeof T" using alloc(3) by simp
  with alloc have nlt: "?n < 2 ^ 64" by linarith
  then have plt: "p < 2 ^ 64" and dbl: "2 * length xs < 2 ^ 64"
    using p by (auto split: if_splits)
  have d: "ptr_diff (ptr_add (Vector_begin v) (int p)) (Vector_begin v) m = Inr (int p, m)"
    by (simp add: ptr_diff_def ptr_add_def returnM_def)
  have cp: "size_t_of_int (int p) = p"
    using plt by (rule size_t_of_int_nat)
  have newcap: "(if size_' v = 0 then 1 else size_t_mul (size_' v) 2) = ?n"
    using sz dbl by (simp add: size_t_mul_def mult.commute)
  have ctor: "RawMemory_ctor T ?n m = Inr (?nd, ?m1)"
    using n0 alloc by (rule RawMemory_ctor_ok)
  have plus: "RawMemory_plus ?nd p ?m1 = Inr (Ptr ?b (int p), ?m1)"
    using p by (auto simp add: RawMemory_plus_def assertM_def bindM_def returnM_def)
  have pn: "p < ?n"
    using p by (cases xs) auto
  have rawsplit: "replicate ?n (Raw :: 'a slot) = replicate p Raw @ Raw # replicate (?n - Suc p) Raw"
    using pn by (rule replicate_split)
  have b1: "block_at ?m1 ?b = Some (replicate p Raw @ Raw # replicate (?n - Suc p) Raw)"
    using rawsplit by (simp add: block_at_new_block)
  let ?m2 = "add_log [Ctor (Ptr ?b (int p))]
               (set_block ?b (Some (replicate p Raw @ Obj x # replicate (?n - Suc p) Raw)) ?m1)"
  have cons: "construct_at (Ptr ?b (int p)) x ?m1 = Inr ((), ?m2)"
    using construct_at_blocks[OF b1, of p x] by simp
  have b2: "block_at ?m2 ?b = Some (replicate p Raw @ Obj x # replicate (?n - Suc p) Raw)"
    by (simp add: block_at_set_block)
  show ?thesis
  proof (cases "length xs = 0")
    case True
    with rep cap have nul: "xs = []" "data_' v = RawMemory_default" "size_' v = 0"
      by (auto dest: vec_rep_null)
    from True p have p0: "p = 0" by simp
    have "EmplaceWithReallocation T v (ptr_add (Vector_begin v) (int p)) x m =
            Inr ((Ptr ?b (int p), ?v'), ?m2)"
      using d cp newcap ctor plus cons nul True
      by (simp add: EmplaceWithReallocation_def bindM_Inr RawMemory_Swap_def RawMemory_default_def
          RawMemory_eta RawMemory_dtor_null returnM_def)
    moreover have "vec_rep ?m2 ?v' (take p xs @ x # drop p xs)"
      using True p0 nul by (simp add: vec_rep_def block_at_set_block)
    moreover have "ptr_add (Vector_begin ?v') (int p) = Ptr ?b (int p)"
      by (simp add: Vector_begin_def GetAddress_def)
    ultimately show ?thesis using True p0 by auto
  next
    case False
    then have cpos: "0 < capacity_' (data_' v)" using cap by simp
    from vec_rep_block[OF rep cpos] cap obtain a where
      dv: "data_' v = \<lparr>buffer_' = Ptr a 0, capacity_' = length xs\<rparr>" and
      blk: "block_at m a = Some (map Obj xs)"
      by auto
    from blk have va: "0 < a" "a \<le> length (blocks m)" by (auto dest: block_at_SomeD)
    then have ab: "a \<noteq> ?b" by simp
    have bufa: "buffer_' (data_' v) = Ptr a 0" by (subst dv) simp
    have xs_split: "xs = take p xs @ drop p xs" by simp
    have lt: "length (take p xs) = p" using p by simp
    have a2: "block_at ?m2 a = Some ([] @ map Obj (take p xs) @ map Obj (drop p xs))"
      using blk va ab by (simp add: block_at_set_block block_at_new_block flip: map_append)
    have b2': "block_at ?m2 ?b = Some ([] @ replicate p Raw @ (Obj x # replicate (?n - Suc p) Raw))"
      using b2 by simp
    let ?m3 = "add_log (relocation_events T (Ptr a 0) p (Ptr ?b 0))
                 (set_block a (Some (replicate p Raw @ map Obj (drop p xs)))
                   (set_block ?b (Some (map Obj (take p xs) @ Obj x # replicate (?n - Suc p) Raw)) ?m2))"
    have mv1: "MoveElements T (Ptr a 0) p (Ptr ?b 0) ?m2 = Inr ((), ?m3)"
      using MoveElements_blocks[OF a2 b2' _ ab, of T] lt by (simp add: relocation_events_def)
    have a3: "block_at ?m3 a = Some (replicate p Raw @ map Obj (drop p xs) @ [])"
      using va by (simp add: block_at_set_block)
    have rest: "?n - Suc p = (length xs - p) + (?n - Suc (length xs))"
      using False p by simp
    have b3: "block_at ?m3 ?b =
                Some ((map Obj (take p xs) @ [Obj x]) @ replicate (length (drop p xs)) Raw
                      @ replicate (?n - Suc (length xs)) Raw)"
      using va ab rest by (simp add: block_at_set_block replicate_add)
    let ?m4 = "add_log (relocation_events T (Ptr a (int p)) (length xs - p) (Ptr ?b (int p + 1)))
                 (set_block a (Some (replicate p Raw @ replicate (length xs - p) Raw))
                   (set_block ?b (Some ((map Obj (take p xs) @ [Obj x]) @ map Obj (drop p xs)
                                        @ replicate (?n - Suc (length xs)) Raw)) ?m3))"
    have mv2: "MoveElements T (Ptr a (int p)) (length xs - p) (Ptr ?b (int p + 1)) ?m3 = Inr ((), ?m4)"
      using MoveElements_blocks[OF a3 b3 _ ab, of T] lt p
      by (simp add: relocation_events_def add.commute)
    have a4: "block_at ?m4 a = Some (replicate p Raw @ replicate (length xs - p) Raw)"
      using va by (simp add: block_at_set_block)
    have dt: "RawMemory_dtor \<lparr>buffer_' = Ptr a 0, capacity_' = length xs\<rparr> ?m4 = Inr ((), set_block a None ?m4)"
      using a4 by (rule RawMemory_dtor_block)
    have sub: "size_t_sub (length xs) p = length xs - p"
      using p by (simp add: size_t_sub_def)
    have "EmplaceWithReallocation T v (ptr_add (Vector_begin v) (int p)) x m =
            Inr ((Ptr ?b (int p), ?v'), set_block a None ?m4)"
      using d cp newcap ctor plus cons False sz bufa mv1 mv2 dt sub dv
      by (simp add: EmplaceWithReallocation_def bindM_Inr GetAddress_def RawMemory_Swap_def
          RawMemory_eta returnM_def)
    have emp: "EmplaceWithReallocation T v (ptr_add (Vector_begin v) (int p)) x m =
            Inr ((Ptr ?b (int p), ?v'), set_block a None ?m4)"
      by fact
    have "block_at (set_block a None ?m4) ?b =
        Some (map Obj (take p xs @ x # drop p xs) @ replicate (?n - Suc (length xs)) Raw)"
      using va ab by (simp add: block_at_set_block)
    moreover have "Suc 0 \<le> length xs"
      using False by (cases xs) auto
    ultimately have "vec_rep (set_block a None ?m4) ?v' (take p xs @ x # drop p xs)"
      using False p by (simp add: vec_rep_def Suc_le_eq)
    moreover have "ptr_add (Vector_begin ?v') (int p) = Ptr ?b (int p)"
      by (simp add: Vector_begin_def GetAddress_def)
    moreover have "Vector_begin v = Ptr a 0" "Vector_begin ?v' = Ptr ?b 0"
      using bufa by (simp_all add: Vector_begin_def GetAddress_def)
    ultimately show ?thesis using False emp by auto
  qed
qed

section \<open>Moving a Vector\<close>

text \<open>
  The move constructor hands the buffer over and leaves \<open>other\<close> with a null buffer; it
  does not touch \<open>other.size_\<close>.
\<close>

lemma Vector_move_ctor_eq:
  "Vector_move_ctor v = (v, v\<lparr>data_' := RawMemory_default\<rparr>)"
  by (simp add: Vector_move_ctor_def RawMemory_move_assign_def RawMemory_default_def)

text \<open>
  C1 (the code at the failing input). Moving from a Vector of three elements, by the
  move constructor and by move assignment into an empty Vector, gives the destination the
  source's buffer and size, and leaves the source with capacity 0 and a null buffer but
  with its size still 3, not 0.
\<close>

theorem moved_from_source_keeps_size:
  "Vector_move_ctor vec3 = (vec3, \<lparr>data_' = \<lparr>buffer_' = nullptr, capacity_' = 0\<rparr>, size_' = 3\<rparr>) \<and>
   Vector_move_assign [empty_vec, vec3] 0 1 (mem3 (1::int) 2 3) =
     Inr ([vec3, \<lparr>data_' = \<lparr>buffer_' = nullptr, capacity_' = 0\<rparr>, size_' = 3\<rparr>], mem3 1 2 3)"
  by code_simp

text \<open>
  C2 (the code at the failing input). \<open>vec3\<close> satisfies the state invariant; the object
  the move constructor leaves behind does not: its size 3 exceeds its capacity 0.
\<close>

theorem moved_from_source_breaks_invariant:
  "vec_rep (mem3 (1::int) 2 3) vec3 [1, 2, 3] \<and>
   Size (snd (Vector_move_ctor vec3)) = 3 \<and> Capacity (snd (Vector_move_ctor vec3)) = 0"
  by code_simp

text \<open>
  C9. Move-assigning a Vector to itself returns every object and the memory as they
  were: the buffer leaves the member for the temporary that \<^verbatim>\<open>std::exchange\<close> returns and
  comes back from it, and the size is assigned to itself.
\<close>

theorem Vector_move_assign_self:
  "Vector_move_assign objs this this m = Inr (objs, m)"
proof (cases "this < length objs")
  case True
  then show ?thesis
    by (simp add: Vector_move_assign_def std_exchange_data_def RawMemory_move_ctor_def
        RawMemory_move_assign_def RawMemory_default_def RawMemory_dtor_def Deallocate_def
        operator_delete_def bindM_def returnM_def Let_def list_update_same_conv)
next
  case False
  then show ?thesis
    by (simp add: Vector_move_assign_def std_exchange_data_def RawMemory_move_ctor_def
        RawMemory_move_assign_def RawMemory_default_def RawMemory_dtor_def Deallocate_def
        operator_delete_def bindM_def returnM_def Let_def list_update_beyond)
qed

section \<open>PopBack\<close>

text \<open>
  C4, as stated, fails: on an empty Vector with reserved capacity, \<^verbatim>\<open>PopBack\<close> does not stop
  at an assertion.
\<close>

theorem PopBack_empty_no_assertion:
  "PopBack reserved_vec reserved_mem \<noteq> Inl AssertionFailed"
  by code_simp

text \<open>
  C4, amended. \<^verbatim>\<open>PopBack\<close> has no assertion. On every empty Vector it passes the slot
  before the first one to \<^verbatim>\<open>std::destroy_at\<close>, which is undefined behaviour.
\<close>

theorem PopBack_empty_undefined:
  "vec_rep m v [] \<Longrightarrow> PopBack v m = Inl UndefinedBehaviour"
  by (auto simp add: vec_rep_def PopBack_def bindM_def destroy_at_def slot_at_def ptr_add_def
      GetAddress_def nullptr_def block_at_def split: option.splits if_splits)

theorem PopBack_empty_undefined_witness:
  "vec_rep mem1 empty_vec [] \<and> PopBack empty_vec mem1 = Inl UndefinedBehaviour"
proof -
  have h: "vec_rep mem1 empty_vec []"
    by code_simp
  show ?thesis
    using h PopBack_empty_undefined [OF h] by simp
qed

section \<open>Emplace below capacity\<close>

text \<open>
  Below capacity, on a Vector that is not empty, \<^verbatim>\<open>Emplace\<close> at \<open>begin()\<close> is undefined
  behaviour whatever the elements are: the last step of \<^verbatim>\<open>std::move_backward\<close> reads the
  slot before the buffer.
\<close>

lemma bindM_Inl: "f m = Inl e \<Longrightarrow> bindM f g m = Inl e"
  by (simp add: bindM_def)

lemma move_assign_error: "move_assign T p q m = Inl e \<Longrightarrow> e = UndefinedBehaviour"
  by (auto simp: move_assign_def split: option.splits slot.splits)

lemma move_construct_error: "move_construct T p q m = Inl e \<Longrightarrow> e = UndefinedBehaviour"
  by (auto simp: move_construct_def split: option.splits slot.splits)

lemma move_assign_before_buffer: "move_assign T p (Ptr a (- 1)) m = Inl UndefinedBehaviour"
  by (auto simp: move_assign_def slot_at_def split: option.splits slot.splits)

lemma move_backward_loop_before_buffer:
  "move_backward_loop T (Suc n) (Ptr a (int n)) (Ptr a (int n + 1)) m = Inl UndefinedBehaviour"
proof (induction n arbitrary: m)
  case 0
  show ?case by (simp add: bindM_def move_assign_before_buffer)
next
  case (Suc n)
  show ?case
  proof (cases "move_assign T (Ptr a (int (Suc n))) (Ptr a (int n)) m")
    case (Inl e)
    then show ?thesis
      by (auto simp: bindM_def dest: move_assign_error)
  next
    case (Inr r)
    then obtain m' where "move_assign T (Ptr a (int (Suc n))) (Ptr a (int n)) m = Inr ((), m')"
      by (cases r) auto
    then show ?thesis
      using Suc.IH[of m'] by (simp add: bindM_def add.commute)
  qed
qed

lemma Emplace_begin_below_capacity:
  assumes rep: "vec_rep m v xs" and ne: "xs \<noteq> []" and lt: "length xs < capacity_' (data_' v)"
  shows "Emplace T v (Vector_begin v) x m = Inl UndefinedBehaviour"
proof -
  from lt have cpos: "0 < capacity_' (data_' v)" by (rule le_less_trans[OF le0])
  from vec_rep_block[OF rep cpos] obtain a where
    d: "data_' v = \<lparr>buffer_' = Ptr a 0, capacity_' = capacity_' (data_' v)\<rparr>" and
    sz: "size_' v = length xs"
    by blast
  from ne obtain n where n: "length xs = Suc n" by (cases xs) auto
  have bufa: "buffer_' (data_' v) = Ptr a 0" by (subst d) simp
  have b: "Vector_begin v = Ptr a 0" "Vector_end v = Ptr a (1 + int n)"
    using bufa sz n by (simp_all add: Vector_begin_def Vector_end_def GetAddress_def add.commute)
  have z: "size_t_of_int 0 = 0" by (simp add: size_t_of_int_def)
  have mb: "std_move_backward T (Ptr a (- 1)) (Ptr a (int n)) (Ptr a (1 + int n)) m' = Inl UndefinedBehaviour" for m'
    using move_backward_loop_before_buffer[of T n a m']
    by (simp add: std_move_backward_def nat_add_distrib add.commute)
  have inner: "bindM (move_construct T (Ptr a (1 + int n)) (Ptr a (int n)))
          (\<lambda>_. bindM (std_move_backward T (Ptr a (- 1)) (Ptr a (int n)) (Ptr a (1 + int n))) f) m
        = Inl UndefinedBehaviour" for f :: "unit \<Rightarrow> (unit, 'a) M"
  proof (cases "move_construct T (Ptr a (1 + int n)) (Ptr a (int n)) m")
    case (Inl e)
    then show ?thesis by (auto simp: bindM_def dest: move_construct_error)
  next
    case (Inr r)
    then show ?thesis by (cases r) (simp add: bindM_def mb)
  qed
  have "bindM (bindM (move_construct T (Ptr a (1 + int n)) (Ptr a (int n)))
          (\<lambda>_. bindM (std_move_backward T (Ptr a (- 1)) (Ptr a (int n)) (Ptr a (1 + int n))) f)) g m
        = Inl UndefinedBehaviour" for f :: "unit \<Rightarrow> (unit, 'a) M" and g :: "unit \<Rightarrow> (ptr \<times> Vector, 'a) M"
    by (rule bindM_Inl) (rule inner)
  then show ?thesis
    using lt sz n b z bufa
    by (simp add: Emplace_def EmplaceWithoutReallocation_def RawMemory_Capacity_def ptr_diff_def
        RawMemory_plus_def RawMemory_index_def assertM_def)
qed

text \<open>
  C3 (the code at the failing inputs). Below capacity and before the end,
  \<^verbatim>\<open>EmplaceWithoutReallocation\<close> calls \<^verbatim>\<open>std::move_backward\<close> on the range that starts one
  slot before \<open>pos\<close>. At \<open>pos = begin()\<close> that slot lies before the buffer: undefined
  behaviour. At \<open>pos = begin() + 1\<close> the element at index 0 is moved from: a
  \<^verbatim>\<open>unique_ptr\<close> there is left null.
\<close>

theorem Emplace_below_capacity_off_by_one:
  "Emplace int_elem vec3 (Vector_begin vec3) 9 (mem3 1 2 3) = Inl UndefinedBehaviour \<and>
   (case Emplace unique_ptr_elem vec3 (ptr_add (Vector_begin vec3) 1) (Some 9)
           (mem3 (Some 1) (Some 2) (Some 3)) of
      Inl e \<Rightarrow> []
    | Inr ((r, v), m) \<Rightarrow> contents m v) =
     [Some (Obj None), Some (Obj (Some 9)), Some (Obj (Some 2)), Some (Obj (Some 3))]"
  by code_simp

text \<open>
  C7 (the code at the failing inputs). \<^verbatim>\<open>Insert\<close> at \<open>begin() + 1\<close> and then \<^verbatim>\<open>Erase\<close> at
  \<open>begin() + 1\<close> on three \<^verbatim>\<open>unique_ptr\<close>s below capacity leaves the first one null;
  \<^verbatim>\<open>Insert\<close> at \<open>begin()\<close> on three \<^verbatim>\<open>int\<close>s below capacity is undefined behaviour.
\<close>

theorem Insert_then_Erase_loses_element:
  "(case bindM (Insert unique_ptr_elem vec3 (ptr_add (Vector_begin vec3) 1) (Some 9))
            (\<lambda>(r, v). Erase unique_ptr_elem v (ptr_add (Vector_begin v) 1))
            (mem3 (Some 1) (Some 2) (Some 3)) of
      Inl e \<Rightarrow> []
    | Inr ((r, v), m) \<Rightarrow> contents m v) =
     [Some (Obj None), Some (Obj (Some 2)), Some (Obj (Some 3))] \<and>
   bindM (Insert int_elem vec3 (Vector_begin vec3) 9)
     (\<lambda>(r, v). Erase int_elem v (Vector_begin v)) (mem3 1 2 3) = Inl UndefinedBehaviour"
  by code_simp

section \<open>Growth policy\<close>

text \<open>
  C5. On a Vector whose size equals its capacity, \<^verbatim>\<open>Emplace\<close>, \<^verbatim>\<open>Insert\<close>, \<^verbatim>\<open>EmplaceBack\<close> and
  \<^verbatim>\<open>PushBack\<close> succeed when the allocation of the new buffer is granted, and the new
  capacity is 1 if the capacity was 0 and twice the capacity otherwise.
\<close>

theorem growth_doubles_capacity:
  assumes "vec_rep m v xs" "Size v = Capacity v" "p \<le> Size v"
    "(if Capacity v = 0 then 1 else 2 * Capacity v) * sizeof T \<le> alloc_limit m"
    "alloc_limit m < 2 ^ 64" "0 < sizeof T"
  shows "(\<exists>r v' m'. Emplace T v (ptr_add (Vector_begin v) (int p)) x m = Inr ((r, v'), m') \<and>
            Capacity v' = (if Capacity v = 0 then 1 else 2 * Capacity v)) \<and>
         (\<exists>r v' m'. Insert T v (ptr_add (Vector_begin v) (int p)) x m = Inr ((r, v'), m') \<and>
            Capacity v' = (if Capacity v = 0 then 1 else 2 * Capacity v)) \<and>
         (\<exists>r v' m'. EmplaceBack T v x m = Inr ((r, v'), m') \<and>
            Capacity v' = (if Capacity v = 0 then 1 else 2 * Capacity v)) \<and>
         (\<exists>v' m'. PushBack T v x m = Inr (v', m') \<and>
            Capacity v' = (if Capacity v = 0 then 1 else 2 * Capacity v))"
proof -
  from assms(1) have sz: "size_' v = length xs" by (simp add: vec_rep_def)
  from assms(2) have full: "size_' v = capacity_' (data_' v)"
    by (simp add: Size_def Capacity_def RawMemory_Capacity_def)
  have cap: "Capacity v = length xs"
    using sz full by (simp add: Capacity_def RawMemory_Capacity_def)
  have al: "(if length xs = 0 then 1 else 2 * length xs) * sizeof T \<le> alloc_limit m"
    using assms(4) by (simp only: cap)
  have pos: "\<And>q. q \<le> length xs \<Longrightarrow>
      \<exists>r v' m'. Emplace T v (ptr_add (Vector_begin v) (int q)) x m = Inr ((r, v'), m') \<and>
        Capacity v' = (if Capacity v = 0 then 1 else 2 * Capacity v)"
  proof -
    fix q assume q: "q \<le> length xs"
    from EmplaceWithReallocation_full[OF assms(1) full q al assms(5,6), of x]
    show "\<exists>r v' m'. Emplace T v (ptr_add (Vector_begin v) (int q)) x m = Inr ((r, v'), m') \<and>
        Capacity v' = (if Capacity v = 0 then 1 else 2 * Capacity v)"
      using full cap by (auto simp: Emplace_def RawMemory_Capacity_def Capacity_def)
  qed
  have p: "p \<le> length xs" using assms(3) sz by (simp add: Size_def)
  have e: "Vector_end v = ptr_add (Vector_begin v) (int (length xs))"
    using sz by (simp add: Vector_end_def Vector_begin_def)
  from pos[of "length xs"] obtain r v' m' where
    eb: "Emplace T v (ptr_add (Vector_begin v) (int (length xs))) x m = Inr ((r, v'), m')"
      "Capacity v' = (if Capacity v = 0 then 1 else 2 * Capacity v)"
    by auto
  have "EmplaceBack T v x m = Inr ((r, v'), m')"
    using eb e by (simp add: EmplaceBack_def)
  moreover from this have "PushBack T v x m = Inr (v', m')"
    by (simp add: PushBack_def bindM_Inr returnM_def)
  ultimately show ?thesis
    using pos[OF p] eb(2) by (auto simp: Insert_def)
qed

theorem growth_doubles_capacity_witness:
  "vec_rep mem1 vec1 [1] \<and> Size vec1 = Capacity vec1 \<and> Capacity vec1 = 1 \<and>
   (\<exists>r v' m'. Emplace int_elem vec1 (ptr_add (Vector_begin vec1) (int 0)) 9 mem1 = Inr ((r, v'), m') \<and>
      Capacity v' = 2) \<and>
   (\<exists>v' m'. PushBack int_elem vec1 9 mem1 = Inr (v', m') \<and> Capacity v' = 2)"
proof -
  have h1: "vec_rep mem1 vec1 [1]" by code_simp
  have h2: "Size vec1 = Capacity vec1" by code_simp
  have h3: "0 \<le> Size vec1" by simp
  have c: "Capacity vec1 = 1" by code_simp
  have h4: "(if Capacity vec1 = 0 then 1 else 2 * Capacity vec1) * sizeof int_elem \<le> alloc_limit mem1"
    by (simp add: c int_elem_def mem1_def)
  have h5: "alloc_limit mem1 < 2 ^ 64" by (simp add: mem1_def)
  have h6: "0 < sizeof int_elem" by (simp add: int_elem_def)
  show ?thesis
    using h1 h2 c growth_doubles_capacity[OF h1 h2 h3 h4 h5 h6, of 9] by simp
qed

section \<open>Relocation policy\<close>






section \<open>Growth keeps the elements\<close>

text \<open>What \<^verbatim>\<open>operator[]\<close> reads in a Vector that holds \<open>xs\<close>.\<close>

lemma vec_rep_contents:
  assumes "vec_rep m v xs"
  shows "contents m v = map (\<lambda>x. Some (Obj x)) xs"
proof (cases "capacity_' (data_' v) = 0")
  case True
  from vec_rep_null[OF assms True] show ?thesis
    by (simp add: contents_def Size_def)
next
  case False
  then have "0 < capacity_' (data_' v)" by simp
  from vec_rep_block[OF assms this] obtain a where
    d: "data_' v = \<lparr>buffer_' = Ptr a 0, capacity_' = capacity_' (data_' v)\<rparr>" and
    blk: "block_at m a = Some (map Obj xs @ replicate (capacity_' (data_' v) - length xs) Raw)" and
    sz: "size_' v = length xs"
    by blast
  have b: "Vector_begin v = Ptr a 0"
    by (subst Vector_begin_def, subst GetAddress_def, subst d) simp
  show ?thesis
  proof (rule nth_equalityI)
    show "length (contents m v) = length (map (\<lambda>x. Some (Obj x)) xs)"
      using sz by (simp add: contents_def Size_def)
  next
    fix i assume "i < length (contents m v)"
    then have i: "i < length xs"
      using sz by (simp add: contents_def Size_def)
    then have "slot_at m (Ptr a (int i)) = Some (Obj (xs ! i))"
      using blk by (simp add: slot_at_def nth_append)
    then show "contents m v ! i = map (\<lambda>x. Some (Obj x)) xs ! i"
      using i sz b by (simp add: contents_def Size_def)
  qed
qed

text \<open>
  C8, as stated, fails: \<^verbatim>\<open>Insert\<close> at \<open>begin()\<close> into a full Vector holding \<open>[1]\<close> raises
  the capacity from 1 to 2, and afterwards index 0 holds the new element 9; the
  element that was at index 0 is at index 1.
\<close>

theorem Insert_at_capacity_shifts_elements:
  "Capacity vec1 = 1 \<and> contents mem1 vec1 = [Some (Obj 1)] \<and>
   observe (Insert int_elem vec1 (Vector_begin vec1) 9 mem1) = Some (2, 2, [Some (Obj 9), Some (Obj 1)])"
  by code_simp

text \<open>
  C8, amended. A \<^verbatim>\<open>Reserve\<close> or a \<^verbatim>\<open>Resize\<close> beyond the capacity and an append at capacity
  keep every element at its index with its value (\<^verbatim>\<open>Resize\<close> adds value-initialised
  elements after them, the append adds the new element after them). An insert at
  position \<open>p\<close> at capacity keeps the elements before \<open>p\<close> at their indices and puts
  those from \<open>p\<close> on one index higher, after the new element. No element is discarded.
  Each operation succeeds when its allocation is granted.
\<close>

theorem capacity_increase_keeps_elements:
  assumes "vec_rep m v xs" "alloc_limit m < 2 ^ 64" "0 < sizeof T"
  shows "(Capacity v < n \<and> n * sizeof T \<le> alloc_limit m \<longrightarrow>
            (\<exists>v' m'. Reserve T n v m = Inr (v', m') \<and> Capacity v' = n \<and> vec_rep m' v' xs) \<and>
            (\<exists>v' m'. Resize T n v m = Inr (v', m') \<and> Capacity v' = n \<and>
               vec_rep m' v' (xs @ replicate (n - length xs) (value_initialized T)))) \<and>
         (Size v = Capacity v \<and> p \<le> Size v \<and>
          (if Capacity v = 0 then 1 else 2 * Capacity v) * sizeof T \<le> alloc_limit m \<longrightarrow>
            (\<exists>r v' m'. Emplace T v (ptr_add (Vector_begin v) (int p)) x m = Inr ((r, v'), m') \<and>
               Capacity v < Capacity v' \<and> vec_rep m' v' (take p xs @ x # drop p xs)) \<and>
            (\<exists>v' m'. PushBack T v x m = Inr (v', m') \<and>
               Capacity v < Capacity v' \<and> vec_rep m' v' (xs @ [x])))"
proof (intro conjI impI)
  assume a: "Capacity v < n \<and> n * sizeof T \<le> alloc_limit m"
  then have gt: "capacity_' (data_' v) < n" and al: "n * sizeof T \<le> alloc_limit m"
    by (simp_all add: Capacity_def RawMemory_Capacity_def)
  from Reserve_grow[OF assms(1) gt al assms(2,3)]
  show "\<exists>v' m'. Reserve T n v m = Inr (v', m') \<and> Capacity v' = n \<and> vec_rep m' v' xs"
    by (auto simp: Capacity_def RawMemory_Capacity_def)
  from Resize_grow[OF assms(1) gt al assms(2,3)]
  show "\<exists>v' m'. Resize T n v m = Inr (v', m') \<and> Capacity v' = n \<and>
               vec_rep m' v' (xs @ replicate (n - length xs) (value_initialized T))"
    by (auto simp: Capacity_def RawMemory_Capacity_def)
next
  assume a: "Size v = Capacity v \<and> p \<le> Size v \<and>
          (if Capacity v = 0 then 1 else 2 * Capacity v) * sizeof T \<le> alloc_limit m"
  from assms(1) have sz: "size_' v = length xs" by (simp add: vec_rep_def)
  from a have full: "size_' v = capacity_' (data_' v)"
    by (simp add: Size_def Capacity_def RawMemory_Capacity_def)
  have cap: "Capacity v = length xs"
    using sz full by (simp add: Capacity_def RawMemory_Capacity_def)
  have al: "(if length xs = 0 then 1 else 2 * length xs) * sizeof T \<le> alloc_limit m"
    using a by (simp only: cap)
  have grow: "length xs < (if length xs = 0 then 1 else 2 * length xs)"
    by simp
  have pos: "\<exists>r v' m'. Emplace T v (ptr_add (Vector_begin v) (int q)) x m = Inr ((r, v'), m') \<and>
        Capacity v < Capacity v' \<and> vec_rep m' v' (take q xs @ x # drop q xs)"
    if q: "q \<le> length xs" for q
  proof -
    from EmplaceWithReallocation_full[OF assms(1) full q al assms(2,3), of x]
    obtain v' m' where
      e: "EmplaceWithReallocation T v (ptr_add (Vector_begin v) (int q)) x m =
            Inr ((ptr_add (Vector_begin v') (int q), v'), m')" and
      r: "vec_rep m' v' (take q xs @ x # drop q xs)" and
      c: "capacity_' (data_' v') = (if length xs = 0 then 1 else 2 * length xs)"
      by blast
    have "Emplace T v (ptr_add (Vector_begin v) (int q)) x m =
            Inr ((ptr_add (Vector_begin v') (int q), v'), m')"
      using e full by (simp add: Emplace_def RawMemory_Capacity_def)
    moreover have "Capacity v < Capacity v'"
      using c grow cap by (simp add: Capacity_def RawMemory_Capacity_def)
    ultimately show ?thesis using r by blast
  qed
  have p: "p \<le> length xs" using a sz by (simp add: Size_def)
  from pos[OF p]
  show "\<exists>r v' m'. Emplace T v (ptr_add (Vector_begin v) (int p)) x m = Inr ((r, v'), m') \<and>
               Capacity v < Capacity v' \<and> vec_rep m' v' (take p xs @ x # drop p xs)" .
  have e: "Vector_end v = ptr_add (Vector_begin v) (int (length xs))"
    using sz by (simp add: Vector_end_def Vector_begin_def)
  from pos[of "length xs"] obtain r v' m' where
    eb: "Emplace T v (ptr_add (Vector_begin v) (int (length xs))) x m = Inr ((r, v'), m')"
      "Capacity v < Capacity v'" "vec_rep m' v' (xs @ [x])"
    by auto
  have "PushBack T v x m = Inr (v', m')"
    using eb(1) e by (simp add: PushBack_def EmplaceBack_def bindM_Inr returnM_def)
  with eb show "\<exists>v' m'. PushBack T v x m = Inr (v', m') \<and>
               Capacity v < Capacity v' \<and> vec_rep m' v' (xs @ [x])"
    by blast
qed

theorem capacity_increase_keeps_elements_witness:
  "vec_rep mem1 vec1 [1] \<and> Size vec1 = Capacity vec1 \<and> Capacity vec1 < 3 \<and>
   (\<exists>v' m'. Reserve int_elem 3 vec1 mem1 = Inr (v', m') \<and> Capacity v' = 3 \<and> vec_rep m' v' [1]) \<and>
   (\<exists>v' m'. Resize int_elem 3 vec1 mem1 = Inr (v', m') \<and> Capacity v' = 3 \<and> vec_rep m' v' [1, 0, 0]) \<and>
   (\<exists>r v' m'. Emplace int_elem vec1 (ptr_add (Vector_begin vec1) (int 0)) 9 mem1 = Inr ((r, v'), m') \<and>
      Capacity vec1 < Capacity v' \<and> vec_rep m' v' [9, 1]) \<and>
   (\<exists>v' m'. PushBack int_elem vec1 9 mem1 = Inr (v', m') \<and>
      Capacity vec1 < Capacity v' \<and> vec_rep m' v' [1, 9])"
proof -
  have h1: "vec_rep mem1 vec1 [1]" by code_simp
  have h2: "alloc_limit mem1 < 2 ^ 64" by (simp add: mem1_def)
  have h3: "0 < sizeof int_elem" by (simp add: int_elem_def)
  have c: "Capacity vec1 = 1" "Size vec1 = 1" by code_simp+
  have a: "3 * sizeof int_elem \<le> alloc_limit mem1" "2 * sizeof int_elem \<le> alloc_limit mem1"
    by (simp_all add: int_elem_def mem1_def)
  have v: "value_initialized int_elem = 0" by (simp add: int_elem_def)
  have r: "replicate 2 (0 :: int) = [0, 0]" by (simp add: numeral_2_eq_2)
  show ?thesis
    using h1 c a v r capacity_increase_keeps_elements[OF h1 h2 h3, of 3 0 9] by simp
qed

section \<open>Copy assignment\<close>

lemma Vector_copy_ctor_ok:
  assumes rep: "vec_rep m r ys" and pos: "0 < length ys"
    and alloc: "length ys * sizeof T \<le> alloc_limit m" "alloc_limit m < 2 ^ 64" "0 < sizeof T"
  shows "\<exists>m'. Vector_copy_ctor T r m =
           Inr (\<lparr>data_' = \<lparr>buffer_' = Ptr (Suc (length (blocks m))) 0, capacity_' = length ys\<rparr>,
                 size_' = length ys\<rparr>, m') \<and>
         block_at m' (Suc (length (blocks m))) = Some (map Obj ys) \<and>
         (\<forall>c. c \<noteq> Suc (length (blocks m)) \<longrightarrow> block_at m' c = block_at m c) \<and>
         length (blocks m') = Suc (length (blocks m))"
proof -
  let ?b = "Suc (length (blocks m))"
  let ?m1 = "new_block (length ys) m"
  from rep have le: "length ys \<le> capacity_' (data_' r)" and sz: "size_' r = length ys"
    by (auto simp: vec_rep_def)
  from pos le have cpos: "0 < capacity_' (data_' r)"
    by (rule less_le_trans)
  from vec_rep_block[OF rep cpos] obtain a where
    d: "data_' r = \<lparr>buffer_' = Ptr a 0, capacity_' = capacity_' (data_' r)\<rparr>" and
    blk: "block_at m a = Some (map Obj ys @ replicate (capacity_' (data_' r) - length ys) Raw)"
    by blast
  from blk have va: "0 < a" "a \<le> length (blocks m)" by (auto dest: block_at_SomeD)
  then have ab: "a \<noteq> ?b" by simp
  have bufa: "buffer_' (data_' r) = Ptr a 0" by (subst d) simp
  have ctor: "RawMemory_ctor T (length ys) m = Inr (\<lparr>buffer_' = Ptr ?b 0, capacity_' = length ys\<rparr>, ?m1)"
    using pos alloc by (rule RawMemory_ctor_ok)
  have a1: "block_at ?m1 a = Some ([] @ map Obj ys @ replicate (capacity_' (data_' r) - length ys) Raw)"
    using blk va by (simp add: block_at_new_block)
  have b1: "block_at ?m1 ?b = Some ([] @ replicate (length ys) Raw @ [])"
    by (simp add: block_at_new_block)
  let ?m2 = "add_log (map2 CopyCtor (ptr_range (Ptr ?b 0) (length ys)) (ptr_range (Ptr a 0) (length ys)))
               (set_block ?b (Some (map Obj ys)) ?m1)"
  have cp: "uninitialized_copy_n (Ptr a 0) (length ys) (Ptr ?b 0) ?m1 = Inr ((), ?m2)"
    using uninitialized_copy_n_blocks[OF a1 b1 _ ab] by simp
  have "Vector_copy_ctor T r m =
          Inr (\<lparr>data_' = \<lparr>buffer_' = Ptr ?b 0, capacity_' = length ys\<rparr>, size_' = length ys\<rparr>, ?m2)"
    using ctor cp sz bufa
    by (simp add: Vector_copy_ctor_def bindM_Inr GetAddress_def Size_def returnM_def)
  moreover have "block_at ?m2 ?b = Some (map Obj ys)"
    by (simp add: block_at_set_block)
  moreover have "\<forall>c. c \<noteq> ?b \<longrightarrow> block_at ?m2 c = block_at m c"
    by (simp add: block_at_set_block block_at_new_block)
  ultimately show ?thesis by simp
qed

lemma Vector_dtor_ok:
  assumes rep: "vec_rep m v xs"
  shows "\<exists>m'. Vector_dtor v m = Inr ((), m') \<and>
           (\<forall>c. buffer_' (data_' v) \<noteq> Ptr c 0 \<longrightarrow> block_at m' c = block_at m c)"
proof (cases "capacity_' (data_' v) = 0")
  case True
  from vec_rep_null[OF rep True] show ?thesis
    by (simp add: Vector_dtor_def GetAddress_def RawMemory_default_def RawMemory_dtor_null returnM_def)
next
  case False
  then have cpos: "0 < capacity_' (data_' v)" by simp
  from vec_rep_block[OF rep cpos] obtain a where
    d: "data_' v = \<lparr>buffer_' = Ptr a 0, capacity_' = capacity_' (data_' v)\<rparr>" and
    blk: "block_at m a = Some ([] @ map Obj xs @ replicate (capacity_' (data_' v) - length xs) Raw)" and
    sz: "size_' v = length xs"
    by auto
  from blk have va: "0 < a" "a \<le> length (blocks m)" by (auto dest: block_at_SomeD)
  have bufa: "buffer_' (data_' v) = Ptr a 0" by (subst d) simp
  let ?m1 = "add_log (map Dtor (ptr_range (Ptr a 0) (length xs)))
               (set_block a (Some (replicate (length xs) Raw @ replicate (capacity_' (data_' v) - length xs) Raw)) m)"
  have ds: "destroy_n (Ptr a 0) (length xs) m = Inr ((), ?m1)"
    using destroy_n_blocks[OF blk] by simp
  have "block_at ?m1 a = Some (replicate (length xs) Raw @ replicate (capacity_' (data_' v) - length xs) Raw)"
    using va by (simp add: block_at_set_block)
  then have dt: "RawMemory_dtor \<lparr>buffer_' = Ptr a 0, capacity_' = capacity_' (data_' v)\<rparr> ?m1 =
      Inr ((), set_block a None ?m1)"
    by (rule RawMemory_dtor_block)
  have nn: "Ptr a 0 \<noteq> nullptr"
    using va by (simp add: nullptr_def)
  have "Vector_dtor v m = Inr ((), set_block a None ?m1)"
    using ds dt sz bufa nn d by (simp add: Vector_dtor_def GetAddress_def bindM_Inr)
  moreover have "\<forall>c. c \<noteq> a \<longrightarrow> block_at (set_block a None ?m1) c = block_at m c"
    using va by (simp add: block_at_set_block)
  ultimately show ?thesis using bufa by auto
qed

lemma vec_rep_frame:
  assumes "vec_rep m v xs"
    "buffer_' (data_' v') = buffer_' (data_' v)" "capacity_' (data_' v') = capacity_' (data_' v)"
    "size_' v' = size_' v"
    "\<And>a. block_at m a \<noteq> None \<Longrightarrow> buffer_' (data_' v) = Ptr a 0 \<Longrightarrow> block_at m' a = block_at m a"
  shows "vec_rep m' v' xs"
proof (cases "capacity_' (data_' v) = 0")
  case True
  with assms(1-4) show ?thesis by (simp add: vec_rep_def)
next
  case False
  then have cpos: "0 < capacity_' (data_' v)" by simp
  from vec_rep_block[OF assms(1) cpos] obtain a where
    d: "data_' v = \<lparr>buffer_' = Ptr a 0, capacity_' = capacity_' (data_' v)\<rparr>" and
    blk: "block_at m a = Some (map Obj xs @ replicate (capacity_' (data_' v) - length xs) Raw)"
    by blast
  have bufa: "buffer_' (data_' v) = Ptr a 0" by (subst d) simp
  from assms(5)[of a] blk bufa have "block_at m' a = block_at m a" by simp
  with assms(1-4) False bufa blk show ?thesis by (simp add: vec_rep_def)
qed

lemma copy_assign_realloc:
  assumes i: "this < length objs" "rhs < length objs" "this \<noteq> rhs"
    and rt: "vec_rep m (objs ! this) xs" and rr: "vec_rep m (objs ! rhs) ys"
    and gt: "capacity_' (data_' (objs ! this)) < length ys"
    and alloc: "length ys * sizeof T \<le> alloc_limit m" "alloc_limit m < 2 ^ 64" "0 < sizeof T"
  shows "\<exists>m'. Vector_copy_assign T objs this rhs m =
           Inr (objs[this := \<lparr>data_' = \<lparr>buffer_' = Ptr (Suc (length (blocks m))) 0, capacity_' = length ys\<rparr>,
                              size_' = length ys\<rparr>], m') \<and>
         vec_rep m' \<lparr>data_' = \<lparr>buffer_' = Ptr (Suc (length (blocks m))) 0, capacity_' = length ys\<rparr>,
                      size_' = length ys\<rparr> ys"
proof -
  let ?b = "Suc (length (blocks m))"
  let ?t = "objs ! this"
  let ?rc = "\<lparr>data_' = \<lparr>buffer_' = Ptr ?b 0, capacity_' = length ys\<rparr>, size_' = length ys\<rparr>"
  let ?old = "\<lparr>data_' = \<lparr>buffer_' = buffer_' (data_' ?t), capacity_' = capacity_' (data_' ?t)\<rparr>,
               size_' = size_' ?t\<rparr>"
  from gt have pos: "0 < length ys" by (rule le_less_trans[OF le0])
  from rr have szr: "size_' (objs ! rhs) = length ys" by (simp add: vec_rep_def)
  from Vector_copy_ctor_ok[OF rr pos alloc] obtain m2 where
    cc: "Vector_copy_ctor T (objs ! rhs) m = Inr (?rc, m2)" and
    b2: "block_at m2 ?b = Some (map Obj ys)" and
    fr2: "\<forall>c. c \<noteq> ?b \<longrightarrow> block_at m2 c = block_at m c"
    by blast
  have sw: "Vector_Swap (objs @ [?rc]) this (length objs) = objs[this := ?rc] @ [?old]"
    using i(1)
    by (simp add: Vector_Swap_def RawMemory_Swap_def RawMemory_eta nth_append list_update_append)
  have old: "vec_rep m2 ?old xs"
  proof (rule vec_rep_frame[OF rt])
    fix a assume "block_at m a \<noteq> None"
    then have "a \<le> length (blocks m)" by (auto dest: block_at_SomeD)
    then show "block_at m2 a = block_at m a" using fr2 by simp
  qed simp_all
  from Vector_dtor_ok[OF old] obtain m3 where
    dt: "Vector_dtor ?old m2 = Inr ((), m3)" and
    fr3: "\<forall>c. buffer_' (data_' ?old) \<noteq> Ptr c 0 \<longrightarrow> block_at m3 c = block_at m2 c"
    by blast
  have "buffer_' (data_' ?t) \<noteq> Ptr ?b 0"
  proof (cases "capacity_' (data_' ?t) = 0")
    case True
    from vec_rep_null(2)[OF rt True] show ?thesis
      by (simp add: RawMemory_default_def nullptr_def)
  next
    case False
    then have "0 < capacity_' (data_' ?t)" by simp
    from vec_rep_block[OF rt this] obtain a where
      d: "data_' ?t = \<lparr>buffer_' = Ptr a 0, capacity_' = capacity_' (data_' ?t)\<rparr>" and
      blk: "block_at m a = Some (map Obj xs @ replicate (capacity_' (data_' ?t) - length xs) Raw)"
      by blast
    from blk have "a \<le> length (blocks m)" by (auto dest: block_at_SomeD)
    moreover have "buffer_' (data_' ?t) = Ptr a 0" by (subst d) simp
    ultimately show ?thesis by simp
  qed
  with fr3 b2 have b3: "block_at m3 ?b = Some (map Obj ys)" by simp
  have nth: "(objs[this := ?rc] @ [?old]) ! length objs = ?old"
    by (simp add: nth_append)
  have "Vector_copy_assign T objs this rhs m = Inr (objs[this := ?rc], m3)"
    using i gt szr cc sw dt nth
    by (simp add: Vector_copy_assign_def RawMemory_Capacity_def bindM_Inr Let_def returnM_def)
  moreover have "vec_rep m3 ?rc ys"
    using b3 pos by (simp add: vec_rep_def)
  ultimately show ?thesis by blast
qed

lemma copy_assign_reuse:
  assumes i: "this < length objs" "rhs < length objs" "this \<noteq> rhs"
    and rt: "vec_rep m (objs ! this) xs" and rr: "vec_rep m (objs ! rhs) ys"
    and le: "length ys \<le> capacity_' (data_' (objs ! this))"
    and disj: "buffer_' (data_' (objs ! this)) = nullptr \<or>
               buffer_' (data_' (objs ! this)) \<noteq> buffer_' (data_' (objs ! rhs))"
  shows "\<exists>m'. Vector_copy_assign T objs this rhs m =
           Inr (objs[this := (objs ! this)\<lparr>size_' := length ys\<rparr>], m') \<and>
         vec_rep m' ((objs ! this)\<lparr>size_' := length ys\<rparr>) ys"
proof -
  let ?t = "objs ! this" and ?r = "objs ! rhs"
  let ?ct = "capacity_' (data_' ?t)" and ?cr = "capacity_' (data_' ?r)"
  let ?k = "min (length xs) (length ys)"
  from rt have szt: "size_' ?t = length xs" and lxt: "length xs \<le> ?ct" by (auto simp: vec_rep_def)
  from rr have szr: "size_' ?r = length ys" and lyr: "length ys \<le> ?cr" by (auto simp: vec_rep_def)
  have ngt: "\<not> ?ct < length ys" using le by simp
  have unfold: "Vector_copy_assign T objs this rhs m =
      bindM (std_copy (buffer_' (data_' ?r)) (ptr_add (buffer_' (data_' ?r)) (int ?k)) (buffer_' (data_' ?t)))
        (\<lambda>_. bindM (if length xs < length ys
                     then uninitialized_copy_n (ptr_add (buffer_' (data_' ?r)) (int (length xs)))
                            (length ys - length xs) (ptr_add (buffer_' (data_' ?t)) (int (length xs)))
                     else destroy_n (ptr_add (buffer_' (data_' ?t)) (int (length ys))) (length xs - length ys))
          (\<lambda>_. returnM (objs[this := ?t\<lparr>size_' := length ys\<rparr>]))) m"
    using i ngt szt szr
    by (simp add: Vector_copy_assign_def RawMemory_Capacity_def Let_def GetAddress_def Size_def)
  show ?thesis
  proof (cases "?ct = 0")
    case True
    with le lxt have e: "xs = []" "ys = []" by auto
    have "std_copy (buffer_' (data_' ?r)) (ptr_add (buffer_' (data_' ?r)) 0) (buffer_' (data_' ?t)) m
            = Inr ((), m)"
      by (simp add: std_copy_def ptr_add_def returnM_def)
    then have "Vector_copy_assign T objs this rhs m = Inr (objs[this := ?t\<lparr>size_' := length ys\<rparr>], m)"
      using e by (simp add: unfold bindM_Inr returnM_def)
    moreover have "vec_rep m (?t\<lparr>size_' := length ys\<rparr>) ys"
      using rt e by (simp add: vec_rep_def)
    ultimately show ?thesis by blast
  next
    case False
    then have ctpos: "0 < ?ct" by simp
    from vec_rep_block[OF rt ctpos] obtain a where
      dt: "data_' ?t = \<lparr>buffer_' = Ptr a 0, capacity_' = ?ct\<rparr>" and
      blkt: "block_at m a = Some (map Obj xs @ replicate (?ct - length xs) Raw)"
      by blast
    from blkt have va: "0 < a" "a \<le> length (blocks m)" by (auto dest: block_at_SomeD)
    have bt: "buffer_' (data_' ?t) = Ptr a 0" by (subst dt) simp
    show ?thesis
    proof (cases "ys = []")
      case True
      have sc: "std_copy (buffer_' (data_' ?r)) (ptr_add (buffer_' (data_' ?r)) 0) (Ptr a 0) m = Inr ((), m)"
        by (simp add: std_copy_def ptr_add_def returnM_def)
      have blk': "block_at m a = Some ([] @ map Obj xs @ replicate (?ct - length xs) Raw)"
        using blkt by simp
      let ?m1 = "add_log (map Dtor (ptr_range (Ptr a 0) (length xs)))
                   (set_block a (Some (replicate (length xs) Raw @ replicate (?ct - length xs) Raw)) m)"
      have ds: "destroy_n (Ptr a 0) (length xs) m = Inr ((), ?m1)"
        using destroy_n_blocks[OF blk'] by simp
      have "Vector_copy_assign T objs this rhs m = Inr (objs[this := ?t\<lparr>size_' := length ys\<rparr>], ?m1)"
        using True sc ds bt by (simp add: unfold bindM_Inr returnM_def)
      moreover have "vec_rep ?m1 (?t\<lparr>size_' := length ys\<rparr>) ys"
        using True va lxt ctpos bt
        by (simp add: vec_rep_def block_at_set_block replicate_add[symmetric])
      ultimately show ?thesis by blast
    next
      case False
      then have "0 < length ys" by simp
      from this lyr have crpos: "0 < ?cr" by (rule less_le_trans)
      from vec_rep_block[OF rr crpos] obtain b where
        dr: "data_' ?r = \<lparr>buffer_' = Ptr b 0, capacity_' = ?cr\<rparr>" and
        blkr: "block_at m b = Some (map Obj ys @ replicate (?cr - length ys) Raw)"
        by blast
      have br: "buffer_' (data_' ?r) = Ptr b 0" by (subst dr) simp
      from disj bt br va have ab: "b \<noteq> a" by (auto simp: nullptr_def)
      have src: "block_at m b = Some ([] @ map Obj (take ?k ys) @ (map Obj (drop ?k ys) @ replicate (?cr - length ys) Raw))"
        using blkr by (simp flip: map_append)
      have dst: "block_at m a = Some ([] @ map Obj (take ?k xs) @ (map Obj (drop ?k xs) @ replicate (?ct - length xs) Raw))"
        using blkt by (simp flip: map_append)
      have lk: "length (take ?k ys) = ?k" "length (take ?k xs) = ?k" by simp_all
      let ?m1 = "add_log (map2 CopyAssign (ptr_range (Ptr a 0) ?k) (ptr_range (Ptr b 0) ?k))
                   (set_block a (Some (map Obj (take ?k ys) @ map Obj (drop ?k xs) @ replicate (?ct - length xs) Raw)) m)"
      have "copy_loop (Ptr b 0) ?k (Ptr a 0) m = Inr ((), ?m1)"
        using copy_loop_blocks[OF src dst _ ab] lk by simp
      then have sc: "std_copy (Ptr b 0) (ptr_add (Ptr b 0) (int ?k)) (Ptr a 0) m = Inr ((), ?m1)"
        by (simp add: std_copy_def)
      have a1: "block_at ?m1 a = Some (map Obj (take ?k ys) @ map Obj (drop ?k xs) @ replicate (?ct - length xs) Raw)"
        using va by (simp add: block_at_set_block)
      have b1: "block_at ?m1 b = Some (map Obj ys @ replicate (?cr - length ys) Raw)"
        using va ab blkr by (simp add: block_at_set_block)
      show ?thesis
      proof (cases "length xs < length ys")
        case True
        then have k: "?k = length xs" by simp
        have src2: "block_at ?m1 b =
            Some (map Obj (take (length xs) ys) @ map Obj (drop (length xs) ys) @ replicate (?cr - length ys) Raw)"
          using b1 by (simp flip: map_append)
        have "replicate (?ct - length xs) (Raw :: 'a slot) =
                replicate (length ys - length xs) Raw @ replicate (?ct - length ys) Raw"
          using True le by (simp add: replicate_add[symmetric])
        then have dst2: "block_at ?m1 a =
            Some (map Obj (take (length xs) ys) @ replicate (length ys - length xs) Raw @ replicate (?ct - length ys) Raw)"
          using a1 k by simp
        have l2: "length (replicate (length ys - length xs) (Raw :: 'a slot)) = length (drop (length xs) ys)"
          by simp
        have ba: "a \<noteq> b" using ab by simp
        let ?m2 = "add_log (map2 CopyCtor (ptr_range (Ptr a (int (length xs))) (length ys - length xs))
                                          (ptr_range (Ptr b (int (length xs))) (length ys - length xs)))
                     (set_block a (Some (map Obj (take (length xs) ys) @ map Obj (drop (length xs) ys)
                                         @ replicate (?ct - length ys) Raw)) ?m1)"
        have uc: "uninitialized_copy_n (Ptr b (int (length xs))) (length ys - length xs) (Ptr a (int (length xs))) ?m1
                    = Inr ((), ?m2)"
          using uninitialized_copy_n_blocks[OF src2 dst2 l2 ab] True by (simp add: min_def)
        have "Vector_copy_assign T objs this rhs m = Inr (objs[this := ?t\<lparr>size_' := length ys\<rparr>], ?m2)"
          using True sc uc bt br by (simp add: unfold bindM_Inr returnM_def)
        moreover have "block_at ?m2 a = Some (map Obj ys @ replicate (?ct - length ys) Raw)"
          using va by (simp add: block_at_set_block flip: map_append)
        then have "vec_rep ?m2 (?t\<lparr>size_' := length ys\<rparr>) ys"
          using le ctpos bt by (simp add: vec_rep_def)
        ultimately show ?thesis by blast
      next
        case False
        then have k: "?k = length ys" by simp
        have pre: "block_at ?m1 a =
            Some (map Obj ys @ map Obj (drop (length ys) xs) @ replicate (?ct - length xs) Raw)"
          using a1 k by simp
        let ?m2 = "add_log (map Dtor (ptr_range (Ptr a (int (length ys))) (length xs - length ys)))
                     (set_block a (Some (map Obj ys @ replicate (length xs - length ys) Raw
                                         @ replicate (?ct - length xs) Raw)) ?m1)"
        have ds: "destroy_n (Ptr a (int (length ys))) (length xs - length ys) ?m1 = Inr ((), ?m2)"
          using destroy_n_blocks[OF pre] by simp
        have "Vector_copy_assign T objs this rhs m = Inr (objs[this := ?t\<lparr>size_' := length ys\<rparr>], ?m2)"
          using False sc ds bt br by (simp add: unfold bindM_Inr returnM_def)
        moreover have "replicate (length xs - length ys) (Raw :: 'a slot) @ replicate (?ct - length xs) Raw
                         = replicate (?ct - length ys) Raw"
          using False lxt by (simp add: replicate_add[symmetric])
        then have "block_at ?m2 a = Some (map Obj ys @ replicate (?ct - length ys) Raw)"
          using va by (simp add: block_at_set_block)
        then have "vec_rep ?m2 (?t\<lparr>size_' := length ys\<rparr>) ys"
          using le ctpos bt by (simp add: vec_rep_def)
        ultimately show ?thesis by blast
      qed
    qed
  qed
qed

text \<open>
  C10. Copy assignment between well-formed Vectors that do not share a buffer succeeds
  (when the allocation it may need is granted) and leaves the target holding the
  elements of \<open>rhs\<close>. If \<open>rhs.Size()\<close> is at most the target's capacity, the target keeps
  its \<^verbatim>\<open>RawMemory\<close>, buffer and capacity; otherwise its capacity becomes \<open>rhs.Size()\<close>.
  Self-assignment is the first case.
\<close>

theorem Vector_copy_assign_capacity:
  assumes "this < length objs" "rhs < length objs"
    "vec_rep m (objs ! this) xs" "vec_rep m (objs ! rhs) ys"
    "this = rhs \<or> buffer_' (data_' (objs ! this)) = nullptr \<or>
     buffer_' (data_' (objs ! this)) \<noteq> buffer_' (data_' (objs ! rhs))"
    "Size (objs ! rhs) \<le> Capacity (objs ! this) \<or> Size (objs ! rhs) * sizeof T \<le> alloc_limit m"
    "alloc_limit m < 2 ^ 64" "0 < sizeof T"
  shows "\<exists>objs' m'. Vector_copy_assign T objs this rhs m = Inr (objs', m') \<and>
           length objs' = length objs \<and>
           (if Size (objs ! rhs) \<le> Capacity (objs ! this)
            then data_' (objs' ! this) = data_' (objs ! this)
            else Capacity (objs' ! this) = Size (objs ! rhs)) \<and>
           vec_rep m' (objs' ! this) ys"
proof -
  from assms(4) have szr: "Size (objs ! rhs) = length ys" and ler: "length ys \<le> capacity_' (data_' (objs ! rhs))"
    by (auto simp: vec_rep_def Size_def)
  have cap: "Capacity (objs ! this) = capacity_' (data_' (objs ! this))"
    by (simp add: Capacity_def RawMemory_Capacity_def)
  show ?thesis
  proof (cases "this = rhs")
    case True
    then have "Vector_copy_assign T objs this rhs m = Inr (objs, m)"
      by (simp add: Vector_copy_assign_def returnM_def)
    then show ?thesis
      using True assms(4) szr ler cap by auto
  next
    case False
    show ?thesis
    proof (cases "length ys \<le> capacity_' (data_' (objs ! this))")
      case True
      from assms(5) False have disj: "buffer_' (data_' (objs ! this)) = nullptr \<or>
          buffer_' (data_' (objs ! this)) \<noteq> buffer_' (data_' (objs ! rhs))"
        by simp
      from copy_assign_reuse[OF assms(1,2) False assms(3,4) True disj, of T]
      show ?thesis
        using True szr cap assms(1) by auto
    next
      case False2: False
      then have gt: "capacity_' (data_' (objs ! this)) < length ys" by simp
      from assms(6) False2 szr cap have al: "length ys * sizeof T \<le> alloc_limit m" by simp
      from copy_assign_realloc[OF assms(1,2) False assms(3,4) gt al assms(7,8)]
      show ?thesis
        using False2 szr cap assms(1) by (auto simp: Capacity_def RawMemory_Capacity_def)
    qed
  qed
qed

theorem Vector_copy_assign_capacity_witness:
  "vec_rep mem_pair vec1 [7] \<and> vec_rep mem_pair vec_second [1, 2, 3] \<and>
   Capacity vec1 = 1 \<and> Size vec1 = 1 \<and> Capacity vec_second = 4 \<and> Size vec_second = 3 \<and>
   (\<exists>objs' m'. Vector_copy_assign int_elem [vec1, vec_second] 0 1 mem_pair = Inr (objs', m') \<and>
      Capacity (objs' ! 0) = 3 \<and> vec_rep m' (objs' ! 0) [1, 2, 3]) \<and>
   (\<exists>objs' m'. Vector_copy_assign int_elem [vec1, vec_second] 1 0 mem_pair = Inr (objs', m') \<and>
      data_' (objs' ! 1) = data_' vec_second \<and> vec_rep m' (objs' ! 1) [7])"
proof -
  have v1: "vec_rep mem_pair vec1 [7]" by code_simp
  have v2: "vec_rep mem_pair vec_second [1, 2, 3]" by code_simp
  have c: "Capacity vec1 = 1" "Size vec1 = 1" "Capacity vec_second = 4" "Size vec_second = 3"
    by code_simp+
  have i: "(0::nat) < length [vec1, vec_second]" "(1::nat) < length [vec1, vec_second]" by simp_all
  have a0: "vec_rep mem_pair ([vec1, vec_second] ! 0) [7]" using v1 by simp
  have a1: "vec_rep mem_pair ([vec1, vec_second] ! 1) [1, 2, 3]" using v2 by simp
  have d01: "(0::nat) = 1 \<or> buffer_' (data_' ([vec1, vec_second] ! 0)) = nullptr \<or>
     buffer_' (data_' ([vec1, vec_second] ! 0)) \<noteq> buffer_' (data_' ([vec1, vec_second] ! 1))"
    by (simp add: vec1_def vec_second_def)
  have d10: "(1::nat) = 0 \<or> buffer_' (data_' ([vec1, vec_second] ! 1)) = nullptr \<or>
     buffer_' (data_' ([vec1, vec_second] ! 1)) \<noteq> buffer_' (data_' ([vec1, vec_second] ! 0))"
    by (simp add: vec1_def vec_second_def)
  have al01: "Size ([vec1, vec_second] ! 1) \<le> Capacity ([vec1, vec_second] ! 0) \<or>
      Size ([vec1, vec_second] ! 1) * sizeof int_elem \<le> alloc_limit mem_pair"
    by (simp add: c int_elem_def mem_pair_def)
  have al10: "Size ([vec1, vec_second] ! 0) \<le> Capacity ([vec1, vec_second] ! 1) \<or>
      Size ([vec1, vec_second] ! 0) * sizeof int_elem \<le> alloc_limit mem_pair"
    by (simp add: c)
  have l: "alloc_limit mem_pair < 2 ^ 64" by (simp add: mem_pair_def)
  have s: "0 < sizeof int_elem" by (simp add: int_elem_def)
  show ?thesis
    using v1 v2 c
      Vector_copy_assign_capacity[OF i(1) i(2) a0 a1 d01 al01 l s]
      Vector_copy_assign_capacity[OF i(2) i(1) a1 a0 d10 al10 l s]
    by auto
qed

end
